theory Spec2Isabelle
  imports Complex_Main "HOL-Library.Multiset"
begin

section \<open>The HLS knowledge base: data model\<close>

text \<open>
  The store is a PostgreSQL database reached through asyncpg. Each table is a list of
  rows in table order; a row is a record of the columns that the modelled code reads
  or writes. Identifiers (UUIDs) are strings. A value produced by \<^verbatim>\<open>uuid4()\<close> is an
  argument of the model (the fresh identifier), since the functions are pure.
  The column \<^verbatim>\<open>avg_ii_improvement\<close> is a nullable floating point column; it is
  modelled as an optional exact rational, so rounding is not part of the model.
\<close>

type_synonym uuid = string

record project_row =
  p_id :: uuid
  p_name :: string
  p_type :: string
  p_description :: "string option"
  p_created_at :: int

record iteration_row =
  di_id :: uuid
  di_project_id :: uuid
  iteration_number :: int
  approach_description :: "string option"
  di_created_at :: int

record synthesis_row =
  sr_id :: uuid
  sr_iteration_id :: uuid
  ii_achieved :: "int option"

record rule_row =
  r_id :: uuid
  rule_code :: "string option"
  rule_text :: string
  category :: string
  priority :: int

record effectiveness_row =
  eff_id :: uuid
  eff_rule_id :: uuid
  eff_project_type :: string
  times_applied :: int
  success_count :: int
  avg_ii_improvement :: "rat option"

record pattern_row =
  dp_id :: uuid
  dp_name :: string

record db =
  projects :: "project_row list"
  design_iterations :: "iteration_row list"
  synthesis_results :: "synthesis_row list"
  design_patterns :: "pattern_row list"
  hls_rules :: "rule_row list"
  rules_effectiveness :: "effectiveness_row list"

subsection \<open>The statistics row of a (rule, context) pair\<close>

text \<open>
  \<^verbatim>\<open>SELECT ... FROM rules_effectiveness WHERE rule_id = $1 AND project_type = $2\<close>
  read with \<^verbatim>\<open>fetchrow\<close>: the first matching row, or nothing.
\<close>

definition fetch_effectiveness ::
  "effectiveness_row list \<Rightarrow> uuid \<Rightarrow> string \<Rightarrow> effectiveness_row option" where
  "fetch_effectiveness tbl rid ptype =
     find (\<lambda>r. eff_rule_id r = rid \<and> eff_project_type r = ptype) tbl"

text \<open>The three statistics of the row of a pair, as the claims speak of them.\<close>

definition stats_of ::
  "effectiveness_row list \<Rightarrow> uuid \<Rightarrow> string \<Rightarrow> (int \<times> int \<times> rat option) option" where
  "stats_of tbl rid ptype =
     map_option (\<lambda>r. (times_applied r, success_count r, avg_ii_improvement r))
       (fetch_effectiveness tbl rid ptype)"

text \<open>
  \<^verbatim>\<open>UPDATE rules_effectiveness SET times_applied = $1, success_count = $2,
  avg_ii_improvement = $3 WHERE id = $4\<close>.
\<close>

definition update_effectiveness ::
  "effectiveness_row list \<Rightarrow> uuid \<Rightarrow> int \<Rightarrow> int \<Rightarrow> rat option \<Rightarrow> effectiveness_row list" where
  "update_effectiveness tbl eid t s a =
     map (\<lambda>r. if eff_id r = eid
               then r\<lparr>times_applied := t, success_count := s, avg_ii_improvement := a\<rparr>
               else r) tbl"

text \<open>\<^verbatim>\<open>INSERT INTO rules_effectiveness (...) VALUES (...)\<close>: the row is appended.\<close>

definition insert_effectiveness ::
  "effectiveness_row list \<Rightarrow> uuid \<Rightarrow> uuid \<Rightarrow> string \<Rightarrow> int \<Rightarrow> int \<Rightarrow> rat option
     \<Rightarrow> effectiveness_row list" where
  "insert_effectiveness tbl eid rid ptype t s a =
     tbl @ [\<lparr>eff_id = eid, eff_rule_id = rid, eff_project_type = ptype,
             times_applied = t, success_count = s, avg_ii_improvement = a\<rparr>]"

subsection \<open>Overwrite mode: \<^verbatim>\<open>examples/fir128/import_fir128_data.py\<close>\<close>

text \<open>
  \<^verbatim>\<open>record_rule_effectiveness(conn, rule_id, project_type, success, ii_improvement)\<close>
  of the corrective import script. It returns the row's identifier and whether the row
  is new; the model returns the new table first.
\<close>

definition record_rule_effectiveness_overwrite ::
  "uuid \<Rightarrow> effectiveness_row list \<Rightarrow> uuid \<Rightarrow> string \<Rightarrow> bool \<Rightarrow> rat
     \<Rightarrow> effectiveness_row list \<times> uuid \<times> bool" where
  "record_rule_effectiveness_overwrite fresh tbl rid ptype success ii_improvement =
     (case fetch_effectiveness tbl rid ptype of
        Some existing \<Rightarrow>
          (update_effectiveness tbl (eff_id existing) 1 (if success then 1 else 0)
             (Some (if success then ii_improvement else 0)),
           eff_id existing, False)
      | None \<Rightarrow>
          (insert_effectiveness tbl fresh rid ptype 1 (if success then 1 else 0)
             (Some (if success then ii_improvement else 0)),
           fresh, True))"

subsection \<open>Strings\<close>

text \<open>
  A character is a code point below 256. \<^verbatim>\<open>str.lower()\<close> and SQL \<^verbatim>\<open>LOWER\<close> map the
  upper-case letters of that range to lower case; \<^verbatim>\<open>str.strip()\<close> removes the white
  space of that range from both ends.
\<close>

definition lower_char :: "char \<Rightarrow> char" where
  "lower_char c =
     (let n = (of_char c :: nat)
      in if (65 \<le> n \<and> n \<le> 90) \<or> (192 \<le> n \<and> n \<le> 214) \<or> (216 \<le> n \<and> n \<le> 222)
         then char_of (n + 32) else c)"

definition py_lower :: "string \<Rightarrow> string" where
  "py_lower s = map lower_char s"

definition is_space :: "char \<Rightarrow> bool" where
  "is_space c =
     (let n = (of_char c :: nat)
      in (9 \<le> n \<and> n \<le> 13) \<or> (28 \<le> n \<and> n \<le> 32) \<or> n = 133 \<or> n = 160)"

definition py_strip :: "string \<Rightarrow> string" where
  "py_strip s = rev (dropWhile is_space (rev (dropWhile is_space s)))"

text \<open>Python's truth value of an optional string: \<^verbatim>\<open>None\<close> and \<^verbatim>\<open>""\<close> are false.\<close>

fun truthy :: "string option \<Rightarrow> bool" where
  "truthy None = False"
| "truthy (Some s) = (s \<noteq> [])"

text \<open>
  SQL \<^verbatim>\<open>LIKE\<close>: \<^verbatim>\<open>%\<close> matches any sequence, \<^verbatim>\<open>_\<close> any one character, a backslash
  makes the next pattern character literal. A pattern that ends in a lone backslash is
  an error in PostgreSQL; the patterns built below end in \<^verbatim>\<open>%\<close>.
\<close>

fun like_match :: "string \<Rightarrow> string \<Rightarrow> bool" where
  "like_match [] s = (s = [])"
| "like_match (p # ps) s =
     (if p = CHR ''%'' then
        (like_match ps s \<or> (case s of [] \<Rightarrow> False | _ # t \<Rightarrow> like_match (p # ps) t))
      else if p = CHR ''_'' then
        (case s of [] \<Rightarrow> False | _ # t \<Rightarrow> like_match ps t)
      else if p = CHR 0x5C then
        (case ps of [] \<Rightarrow> False
         | q # qs \<Rightarrow> (case s of [] \<Rightarrow> False | c # t \<Rightarrow> c = q \<and> like_match qs t))
      else (case s of [] \<Rightarrow> False | c # t \<Rightarrow> c = p \<and> like_match ps t))"

subsection \<open>Errors\<close>

datatype error =
    HTTP404 string
  | TypeError string
  | EOFError
  | StorageError string

subsection \<open>Rule matching\<close>

text \<open>
  \<^verbatim>\<open>find_matching_rule(conn, rule_code, keywords, description)\<close>, the same in both
  import scripts: the rule with that code, else the rule whose text equals the
  description up to case, else nothing. The keywords are not used.
\<close>

definition find_matching_rule ::
  "rule_row list \<Rightarrow> string option \<Rightarrow> string list option \<Rightarrow> string option \<Rightarrow> rule_row option" where
  "find_matching_rule rules code keywords description =
     (case (if truthy code then find (\<lambda>r. rule_code r = code) rules else None) of
        Some rule \<Rightarrow> Some rule
      | None \<Rightarrow>
          (case (if truthy description
                 then find (\<lambda>r. py_lower (rule_text r) = py_lower (the description)) rules
                 else None) of
             Some rule \<Rightarrow> Some rule
           | None \<Rightarrow> None))"

text \<open>
  The query of the complete-iteration endpoint for one keyword:
  \<^verbatim>\<open>WHERE LOWER(rule_text) LIKE '%' || keyword.lower() || '%' ORDER BY priority DESC LIMIT 1\<close>.
  Among rows of equal priority SQL leaves the choice open; the model takes the first in
  table order.
\<close>

fun first_max_priority :: "rule_row list \<Rightarrow> rule_row option" where
  "first_max_priority [] = None"
| "first_max_priority (r # rs) =
     (case first_max_priority rs of
        None \<Rightarrow> Some r
      | Some b \<Rightarrow> if priority b > priority r then Some b else Some r)"

definition like_rule :: "rule_row list \<Rightarrow> string \<Rightarrow> rule_row option" where
  "like_rule rules keyword =
     first_max_priority
       (filter (\<lambda>r. like_match (''%'' @ py_lower keyword @ ''%'') (py_lower (rule_text r))) rules)"

text \<open>
  The keyword loop of \<^verbatim>\<open>record_complete_iteration\<close>:
  \<^verbatim>\<open>for keyword in rule_app.rule_keywords: rule = ...; if rule: break\<close>.
\<close>

fun match_keywords :: "rule_row list \<Rightarrow> string list \<Rightarrow> rule_row option" where
  "match_keywords rules [] = None"
| "match_keywords rules (k # ks) =
     (case like_rule rules k of
        Some rule \<Rightarrow> Some rule
      | None \<Rightarrow> match_keywords rules ks)"

subsection \<open>Accumulate mode: \<^verbatim>\<open>hls-knowledge-base/import_fir128_data.py\<close>\<close>

text \<open>
  \<^verbatim>\<open>record_rule_effectiveness(conn, rule_id, project_type, success, ii_improvement)\<close>
  of the knowledge base's import script. Step 5 of \<^verbatim>\<open>record_complete_iteration\<close> in
  \<^verbatim>\<open>main.py\<close> performs the same statements inline and is modelled by this definition
  too. \<^verbatim>\<open>float(existing['avg_ii_improvement'] or 0)\<close> reads a NULL as 0.
\<close>

definition record_rule_effectiveness ::
  "uuid \<Rightarrow> effectiveness_row list \<Rightarrow> uuid \<Rightarrow> string \<Rightarrow> bool \<Rightarrow> rat
     \<Rightarrow> effectiveness_row list \<times> uuid \<times> bool" where
  "record_rule_effectiveness fresh tbl rid ptype success ii_improvement =
     (case fetch_effectiveness tbl rid ptype of
        Some existing \<Rightarrow>
          (let new_times = times_applied existing + 1;
               new_success = success_count existing + (if success then 1 else 0);
               old_avg = (case avg_ii_improvement existing of None \<Rightarrow> 0 | Some a \<Rightarrow> a);
               old_success = success_count existing;
               old_total = old_avg * of_int old_success;
               new_total = old_total + (if success then ii_improvement else 0);
               new_avg = (if new_success > 0 then new_total / of_int new_success else 0)
           in (update_effectiveness tbl (eff_id existing) new_times new_success (Some new_avg),
               eff_id existing, False))
      | None \<Rightarrow>
          (insert_effectiveness tbl fresh rid ptype 1 (if success then 1 else 0)
             (Some (if success then ii_improvement else 0)),
           fresh, True))"

text \<open>A sequence of applications to one pair, each with its fresh identifier.\<close>

fun record_all ::
  "effectiveness_row list \<Rightarrow> uuid \<Rightarrow> string \<Rightarrow> (uuid \<times> bool \<times> rat) list
     \<Rightarrow> effectiveness_row list" where
  "record_all tbl rid ptype [] = tbl"
| "record_all tbl rid ptype ((fresh, s, i) # os) =
     record_all (fst (record_rule_effectiveness fresh tbl rid ptype s i)) rid ptype os"

text \<open>The number of successes and the sum of the improvements of the successes.\<close>

definition successes :: "(uuid \<times> bool \<times> rat) list \<Rightarrow> int" where
  "successes os = int (length (filter (\<lambda>(f, s, i). s) os))"

definition success_total :: "(uuid \<times> bool \<times> rat) list \<Rightarrow> rat" where
  "success_total os = sum_list (map (\<lambda>(f, s, i). i) (filter (\<lambda>(f, s, i). s) os))"

subsection \<open>The update endpoint: \<^verbatim>\<open>update_rule_effectiveness\<close> of \<^verbatim>\<open>main.py\<close>\<close>

record RuleEffectivenessUpdate =
  u_rule_code :: "string option"
  u_rule_text :: "string option"
  u_project_type :: string
  was_successful :: bool
  ii_improvement :: "rat option"

text \<open>
  The rule is found by its code, else by its exact text. The statement is an upsert on
  the unique pair (rule_id, project_type): a new row takes the values as given, an
  existing row is updated from its own columns. The division of the statement fails in
  the store when \<^verbatim>\<open>times_applied + 1\<close> is 0.
\<close>

definition update_rule_effectiveness ::
  "uuid \<Rightarrow> db \<Rightarrow> RuleEffectivenessUpdate \<Rightarrow> error + db" where
  "update_rule_effectiveness fresh d update =
     (let by_code = (if truthy (u_rule_code update)
                     then map_option r_id (find (\<lambda>r. rule_code r = u_rule_code update) (hls_rules d))
                     else None);
          rule = (if by_code = None \<and> truthy (u_rule_text update)
                  then map_option r_id
                         (find (\<lambda>r. rule_text r = the (u_rule_text update)) (hls_rules d))
                  else by_code)
      in case rule of
           None \<Rightarrow> Inl (HTTP404 ''Rule not found'')
         | Some rid \<Rightarrow>
             (let s = (if was_successful update then 1 else 0);
                  tbl = rules_effectiveness d
              in case fetch_effectiveness tbl rid (u_project_type update) of
                   None \<Rightarrow>
                     Inr (d\<lparr>rules_effectiveness :=
                            insert_effectiveness tbl fresh rid (u_project_type update) 1 s
                              (ii_improvement update)\<rparr>)
                 | Some old \<Rightarrow>
                     (case ii_improvement update of
                        Some v \<Rightarrow>
                          if times_applied old + 1 = 0
                          then Inl (StorageError ''division by zero'')
                          else Inr (d\<lparr>rules_effectiveness :=
                                 update_effectiveness tbl (eff_id old)
                                   (times_applied old + 1) (success_count old + s)
                                   (Some (((case avg_ii_improvement old of
                                              None \<Rightarrow> 0 | Some a \<Rightarrow> a)
                                             * of_int (times_applied old) + v)
                                          / of_int (times_applied old + 1)))\<rparr>)
                      | None \<Rightarrow>
                          Inr (d\<lparr>rules_effectiveness :=
                                 update_effectiveness tbl (eff_id old)
                                   (times_applied old + 1) (success_count old + s)
                                   (avg_ii_improvement old)\<rparr>))))"

text \<open>A sequence of requests to the endpoint; the first error ends it.\<close>

fun update_all :: "db \<Rightarrow> (uuid \<times> RuleEffectivenessUpdate) list \<Rightarrow> error + db" where
  "update_all d [] = Inr d"
| "update_all d ((fresh, u) # us) =
     (case update_rule_effectiveness fresh d u of
        Inl e \<Rightarrow> Inl e
      | Inr d' \<Rightarrow> update_all d' us)"

subsection \<open>Design iterations: \<^verbatim>\<open>main.py\<close>\<close>

text \<open>
  The requests, with the fields that reach a modelled column. The columns of
  \<^verbatim>\<open>design_iterations\<close> and \<^verbatim>\<open>synthesis_results\<close> that no modelled code reads back
  (code snapshot and hash, pragmas, prompts, latency, resources) are left out. The
  schema is not part of the sources: a constraint violation of an INSERT is not modelled.
\<close>

record DesignIterationCreate =
  dic_project_id :: uuid
  dic_approach_description :: string

record SynthesisResultData =
  srd_ii_achieved :: int

record RuleApplication =
  ra_rule_code :: "string option"
  rule_keywords :: "string list option"
  rule_description :: "string option"
  previous_ii :: int
  current_ii :: int
  ra_success :: bool

record CompleteIterationCreate =
  c_project_id :: uuid
  c_project_name :: "string option"
  c_project_type :: string
  c_iteration :: DesignIterationCreate
  c_synthesis_result :: SynthesisResultData
  rules_applied :: "RuleApplication list"

record iteration_response =
  resp_iteration_id :: uuid
  resp_iteration_number :: int
  resp_project_id :: uuid
  rules_recorded :: nat

text \<open>
  \<^verbatim>\<open>SELECT COALESCE(MAX(iteration_number), 0) + 1 FROM design_iterations
  WHERE project_id = $1\<close>.
\<close>

definition next_iteration_number :: "iteration_row list \<Rightarrow> uuid \<Rightarrow> int" where
  "next_iteration_number tbl pid =
     (case map iteration_number (filter (\<lambda>r. di_project_id r = pid) tbl) of
        [] \<Rightarrow> 0
      | n # ns \<Rightarrow> fold max ns n) + 1"


text \<open>\<^verbatim>\<open>str.upper()\<close>; characters outside ASCII are left as they are in the model.\<close>

definition upper_char :: "char \<Rightarrow> char" where
  "upper_char c =
     (let n = (of_char c :: nat) in if 97 \<le> n \<and> n \<le> 122 then char_of (n - 32) else c)"

definition py_upper :: "string \<Rightarrow> string" where
  "py_upper s = map upper_char s"

text \<open>
  Step 5 of \<^verbatim>\<open>record_complete_iteration\<close>, the loop over \<^verbatim>\<open>data.rules_applied\<close>.
  Iterating over \<^verbatim>\<open>rule_app.rule_keywords\<close> when it is \<^verbatim>\<open>None\<close> raises TypeError.
  \<open>fresh k\<close> is the identifier that \<^verbatim>\<open>uuid4()\<close> yields for a new row of the \<open>k\<close>-th
  application. The state is the statistics table and the counter \<^verbatim>\<open>rules_recorded\<close>.
\<close>

fun record_rules ::
  "(nat \<Rightarrow> uuid) \<Rightarrow> rule_row list \<Rightarrow> string \<Rightarrow> nat \<Rightarrow> RuleApplication list
     \<Rightarrow> effectiveness_row list \<times> nat \<Rightarrow> error + (effectiveness_row list \<times> nat)" where
  "record_rules fresh rules ptype k [] st = Inr st"
| "record_rules fresh rules ptype k (rule_app # rest) (tbl, n) =
     (case rule_keywords rule_app of
        None \<Rightarrow> Inl (TypeError ''NoneType object is not iterable'')
      | Some keywords \<Rightarrow>
          (case match_keywords rules keywords of
             None \<Rightarrow> record_rules fresh rules ptype (Suc k) rest (tbl, n)
           | Some rule \<Rightarrow>
               (let ii = previous_ii rule_app - current_ii rule_app;
                    ok = (ra_success rule_app \<and> ii > 0)
                in record_rules fresh rules ptype (Suc k) rest
                     (fst (record_rule_effectiveness (fresh k) tbl (r_id rule) ptype ok
                             (of_int ii)),
                      Suc n))))"

text \<open>
  The statements inside \<^verbatim>\<open>async with conn.transaction()\<close>: the project is created
  when absent, the iteration and its synthesis result are inserted, the rules are
  recorded. \<open>iteration_id\<close> and \<open>result_id\<close> are the two \<^verbatim>\<open>uuid4()\<close> values.
\<close>

definition complete_iteration_body ::
  "uuid \<Rightarrow> uuid \<Rightarrow> (nat \<Rightarrow> uuid) \<Rightarrow> int \<Rightarrow> db \<Rightarrow> CompleteIterationCreate
     \<Rightarrow> error + (db \<times> iteration_response)" where
  "complete_iteration_body iteration_id result_id fresh now d data =
     (let d1 = (if find (\<lambda>p. p_id p = c_project_id data) (projects d) = None
                then d\<lparr>projects := projects d @
                       [\<lparr>p_id = c_project_id data,
                         p_name = (if truthy (c_project_name data) then the (c_project_name data)
                                   else py_upper (c_project_type data) @ ''_Design''),
                         p_type = c_project_type data,
                         p_description = Some (''Auto-created project for ''
                                                 @ c_project_type data @ '' design''),
                         p_created_at = now\<rparr>]\<rparr>
                else d);
          iteration_num = next_iteration_number (design_iterations d1) (c_project_id data);
          d2 = d1\<lparr>design_iterations := design_iterations d1 @
                  [\<lparr>di_id = iteration_id, di_project_id = c_project_id data,
                    iteration_number = iteration_num,
                    approach_description = Some (dic_approach_description (c_iteration data)),
                    di_created_at = now\<rparr>]\<rparr>;
          d3 = d2\<lparr>synthesis_results := synthesis_results d2 @
                  [\<lparr>sr_id = result_id, sr_iteration_id = iteration_id,
                    ii_achieved = Some (srd_ii_achieved (c_synthesis_result data))\<rparr>]\<rparr>
      in case record_rules fresh (hls_rules d3) (c_project_type data) 0 (rules_applied data)
                (rules_effectiveness d3, 0) of
           Inl e \<Rightarrow> Inl e
         | Inr (tbl, n) \<Rightarrow>
             Inr (d3\<lparr>rules_effectiveness := tbl\<rparr>,
                  \<lparr>resp_iteration_id = iteration_id, resp_iteration_number = iteration_num,
                   resp_project_id = c_project_id data, rules_recorded = n\<rparr>))"

text \<open>
  \<^verbatim>\<open>record_complete_iteration\<close>: the body runs in one transaction. An exception leaves
  the block, the transaction is rolled back and the store is as before the request.
\<close>

definition record_complete_iteration ::
  "uuid \<Rightarrow> uuid \<Rightarrow> (nat \<Rightarrow> uuid) \<Rightarrow> int \<Rightarrow> db \<Rightarrow> CompleteIterationCreate
     \<Rightarrow> (error + iteration_response) \<times> db" where
  "record_complete_iteration iteration_id result_id fresh now d data =
     (case complete_iteration_body iteration_id result_id fresh now d data of
        Inl e \<Rightarrow> (Inl e, d)
      | Inr (d', response) \<Rightarrow> (Inr response, d'))"

section \<open>The logger and rollback tool: \<^verbatim>\<open>examples/fir128/logger-rollback.py\<close>\<close>

text \<open>
  A rollback log is a YAML file. An entry names a table, the identifier of a row and a
  note; \<^verbatim>\<open>record.get('id')\<close> is \<^verbatim>\<open>None\<close> when the entry has no identifier.
\<close>

record manifest_record =
  m_table :: string
  m_id :: "string option"
  m_note :: string

record manifest =
  m_project :: string
  m_iteration :: "int option"
  m_project_type :: string
  m_timestamp :: string
  m_notes :: string
  inserted_records :: "manifest_record list"
  rollback_status :: string
  rollback_timestamp :: "string option"

definition ROLLBACK_ORDER :: "string list" where
  "ROLLBACK_ORDER =
     [''synthesis_results'', ''rules_effectiveness'', ''design_iterations'',
      ''design_patterns'', ''projects'']"

subsection \<open>The order of deletion\<close>

definition determine_order :: "manifest_record list \<Rightarrow> string list" where
  "determine_order records =
     (let tables = set (map m_table records)
      in filter (\<lambda>t. t \<in> tables) ROLLBACK_ORDER)"

text \<open>
  \<^verbatim>\<open>_dry_run_rollback\<close> prints the order, then one DELETE statement for each entry: the
  table, the identifier and the note. The model returns what is printed.
\<close>

definition dry_run_rollback ::
  "manifest_record list \<Rightarrow> string list \<times> (string \<times> manifest_record) list" where
  "dry_run_rollback records =
     (let rollback_order = determine_order records
      in (rollback_order,
          concat (map (\<lambda>t. map (\<lambda>r. (t, r)) (filter (\<lambda>r. m_table r = t) records))
                    rollback_order)))"

subsection \<open>Execution\<close>

text \<open>
  The store is reached through \<^verbatim>\<open>conn.execute("DELETE FROM t WHERE id = $1", rec_id)\<close>.
  The statement is an argument \<open>del\<close> of the model: from a table, an identifier and a
  store it gives the store after the statement, or the message of the error that the
  store raises. \<^verbatim>\<open>rec_id[:8]\<close> in the progress line raises TypeError when the entry has
  no identifier.
\<close>

type_synonym 's delete_stmt = "string \<Rightarrow> string \<Rightarrow> 's \<Rightarrow> string + 's"

definition delete_one :: "'s delete_stmt \<Rightarrow> string \<Rightarrow> manifest_record \<Rightarrow> 's \<Rightarrow> error + 's" where
  "delete_one del t r s =
     (case m_id r of
        None \<Rightarrow> Inl (TypeError ''NoneType object is not subscriptable'')
      | Some rec_id \<Rightarrow>
          (case del t rec_id s of
             Inl msg \<Rightarrow> Inl (StorageError msg)
           | Inr s' \<Rightarrow> Inr s'))"

text \<open>The inner loop, \<^verbatim>\<open>for record in table_records\<close>.\<close>

fun delete_records ::
  "'s delete_stmt \<Rightarrow> string \<Rightarrow> manifest_record list \<Rightarrow> 's \<Rightarrow> error + 's" where
  "delete_records del t [] s = Inr s"
| "delete_records del t (r # rs) s =
     (case delete_one del t r s of
        Inl e \<Rightarrow> Inl e
      | Inr s' \<Rightarrow> delete_records del t rs s')"

text \<open>The outer loop, \<^verbatim>\<open>for table in rollback_order\<close>.\<close>

fun delete_tables ::
  "'s delete_stmt \<Rightarrow> string list \<Rightarrow> manifest_record list \<Rightarrow> 's \<Rightarrow> error + 's" where
  "delete_tables del [] records s = Inr s"
| "delete_tables del (t # ts) records s =
     (case delete_records del t (filter (\<lambda>r. m_table r = t) records) s of
        Inl e \<Rightarrow> Inl e
      | Inr s' \<Rightarrow> delete_tables del ts records s')"

text \<open>
  \<^verbatim>\<open>_execute_rollback\<close>: the loops run inside \<^verbatim>\<open>async with self.conn.transaction()\<close>.
  An exception leaves the block, the store rolls the transaction back, the handler
  returns \<^verbatim>\<open>False\<close> and the log file is not touched. Otherwise the transaction commits
  and \<^verbatim>\<open>_update_log_status\<close> rewrites the file. The result is the return value, the
  store, and the content written to the file, if any. Writing the file is taken to
  succeed.
\<close>

definition update_log_status :: "string \<Rightarrow> manifest \<Rightarrow> manifest" where
  "update_log_status now log_data =
     log_data\<lparr>rollback_status := ''completed'', rollback_timestamp := Some now\<rparr>"

definition execute_rollback ::
  "'s delete_stmt \<Rightarrow> string \<Rightarrow> manifest \<Rightarrow> 's \<Rightarrow> bool \<times> 's \<times> manifest option" where
  "execute_rollback del now log_data s =
     (let records = inserted_records log_data
      in case delete_tables del (determine_order records) records s of
           Inl e \<Rightarrow> (False, s, None)
         | Inr s' \<Rightarrow> (True, s', Some (update_log_status now log_data)))"

text \<open>
  An answer to a prompt is affirmative when
  \<^verbatim>\<open>input(...).strip().lower() in ['y', 'yes']\<close>.
\<close>

definition affirmative :: "string \<Rightarrow> bool" where
  "affirmative response = (py_lower (py_strip response) \<in> set [''y'', ''yes''])"

text \<open>
  \<^verbatim>\<open>rollback(log_file, dry_run)\<close>. The file holds a manifest, or cannot be read
  (\<open>None\<close>). \<open>stdin\<close> holds the lines that \<^verbatim>\<open>input\<close> will read; at the end of the input
  \<^verbatim>\<open>input\<close> raises EOFError, which \<^verbatim>\<open>rollback\<close> does not catch. The result is the return
  value or the exception, the store and the file.
\<close>

definition rollback ::
  "'s delete_stmt \<Rightarrow> string \<Rightarrow> string list \<Rightarrow> bool \<Rightarrow> 's \<times> manifest option
     \<Rightarrow> (error + bool) \<times> 's \<times> manifest option" where
  "rollback del now stdin dry_run world =
     (case world of (s, file) \<Rightarrow>
        (case file of
           None \<Rightarrow> (Inr False, s, file)
         | Some log_data \<Rightarrow>
             (case (if rollback_status log_data = ''completed''
                    then (case stdin of
                            [] \<Rightarrow> Inl EOFError
                          | response # rest \<Rightarrow>
                              if affirmative response then Inr (Some rest) else Inr None)
                    else Inr (Some stdin)) of
                Inl e \<Rightarrow> (Inl e, s, file)
              | Inr None \<Rightarrow> (Inr False, s, file)
              | Inr (Some stdin') \<Rightarrow>
                  if dry_run then (Inr True, s, file)
                  else (case stdin' of
                          [] \<Rightarrow> (Inl EOFError, s, file)
                        | response # rest \<Rightarrow>
                            if affirmative response
                            then (case execute_rollback del now log_data s of
                                    (ok, s', written) \<Rightarrow>
                                      (Inr ok, s',
                                       (case written of None \<Rightarrow> file | Some m \<Rightarrow> Some m)))
                            else (Inr False, s, file)))))"

subsection \<open>The logger\<close>

text \<open>\<^verbatim>\<open>str\<close> of an integer, for the notes and the file names.\<close>

fun str_nat :: "nat \<Rightarrow> string" where
  "str_nat n =
     (if n < 10 then [char_of (48 + n)]
      else str_nat (n div 10) @ [char_of (48 + n mod 10)])"

declare str_nat.simps [simp del]

definition str_int :: "int \<Rightarrow> string" where
  "str_int i = (if i < 0 then ''-'' @ str_nat (nat (- i)) else str_nat (nat i))"

definition str_int_opt :: "int option \<Rightarrow> string" where
  "str_int_opt v = (case v of None \<Rightarrow> ''None'' | Some i \<Rightarrow> str_int i)"

text \<open>
  \<^verbatim>\<open>SELECT * FROM projects WHERE name = $1 ORDER BY created_at DESC LIMIT 1\<close>: among the
  rows created last the model takes the first in table order.
\<close>

fun latest_project :: "project_row list \<Rightarrow> project_row option" where
  "latest_project [] = None"
| "latest_project (p # ps) =
     (case latest_project ps of
        None \<Rightarrow> Some p
      | Some q \<Rightarrow> if p_created_at q > p_created_at p then Some q else Some p)"

text \<open>
  The iterations that \<^verbatim>\<open>logger_by_project\<close> reads. \<^verbatim>\<open>if iteration:\<close> is false for
  \<^verbatim>\<open>None\<close> and for 0; then all iterations of the project are read, the newest first.
\<close>

definition logged_iterations :: "db \<Rightarrow> uuid \<Rightarrow> int option \<Rightarrow> iteration_row list" where
  "logged_iterations d project_id iteration =
     (if iteration \<noteq> None \<and> iteration \<noteq> Some 0
      then filter (\<lambda>r. di_project_id r = project_id \<and> iteration_number r = the iteration)
             (design_iterations d)
      else sort_key (\<lambda>r. - di_created_at r)
             (filter (\<lambda>r. di_project_id r = project_id) (design_iterations d)))"

definition iteration_records :: "db \<Rightarrow> iteration_row \<Rightarrow> manifest_record list" where
  "iteration_records d iter_row =
     \<lparr>m_table = ''design_iterations'', m_id = Some (di_id iter_row),
      m_note = ''Iteration #'' @ str_int (iteration_number iter_row) @ '': '' @
               (case approach_description iter_row of
                  None \<Rightarrow> ''N/A''
                | Some a \<Rightarrow> if a = [] then ''N/A'' else take 50 a)\<rparr>
     # map (\<lambda>s. \<lparr>m_table = ''synthesis_results'', m_id = Some (sr_id s),
                   m_note = ''Synthesis: II='' @ str_int_opt (ii_achieved s)\<rparr>)
         (filter (\<lambda>s. sr_iteration_id s = di_id iter_row) (synthesis_results d))"

text \<open>
  The records that \<^verbatim>\<open>logger_by_project\<close> collects: the project, each iteration read
  with its synthesis results, and every statistics row of the project's type. \<open>None\<close>
  when the project or its iterations are not found.
\<close>

definition logger_records :: "db \<Rightarrow> string \<Rightarrow> int option \<Rightarrow> manifest_record list option" where
  "logger_records d project_name iteration =
     (case latest_project (filter (\<lambda>p. p_name p = project_name) (projects d)) of
        None \<Rightarrow> None
      | Some project \<Rightarrow>
          (let iterations = logged_iterations d (p_id project) iteration
           in if iterations = [] then None
              else Some
                (\<lparr>m_table = ''projects'', m_id = Some (p_id project),
                  m_note = ''Project: '' @ p_name project\<rparr>
                 # concat (map (iteration_records d) iterations)
                 @ map (\<lambda>r. \<lparr>m_table = ''rules_effectiveness'', m_id = Some (eff_id r),
                               m_note = ''Rule effectiveness for '' @ p_type project\<rparr>)
                     (filter (\<lambda>r. eff_project_type r = p_type project)
                        (rules_effectiveness d)))))"

text \<open>
  \<^verbatim>\<open>_generate_log_file\<close>. \<open>glob\<close> stands for \<^verbatim>\<open>logs_dir.glob\<close>: from a pattern it
  gives the files of the directory \<^verbatim>\<open>logs\<close> that match it, none when the directory
  does not exist. The patterns are passed as the code builds them, the project name
  included. \<open>stamp\<close> is \<^verbatim>\<open>datetime.now().strftime("%Y%m%d_%H%M%S")\<close>, which names
  the file, and \<open>isotime\<close> is \<^verbatim>\<open>datetime.now().isoformat()\<close>, which the field
  \<^verbatim>\<open>timestamp\<close> holds. The fields \<^verbatim>\<open>date\<close> and \<^verbatim>\<open>operator\<close> of the file are
  left out. The result is the name and the content of the file written, \<open>None\<close> when
  the operator declined.
\<close>

definition check_duplicate_log :: "(string \<Rightarrow> string list) \<Rightarrow> string \<Rightarrow> int option \<Rightarrow> bool" where
  "check_duplicate_log glob project_name iteration =
     (let pattern = (if iteration \<noteq> None \<and> iteration \<noteq> Some 0
                     then ''rollback_'' @ project_name @ ''_iter'' @ str_int (the iteration)
                            @ ''_*.yaml''
                     else ''rollback_'' @ project_name @ ''_*.yaml'')
      in glob pattern \<noteq> [])"

definition generate_log_file ::
  "(string \<Rightarrow> string list) \<Rightarrow> bool \<Rightarrow> string list \<Rightarrow> string \<Rightarrow> string \<Rightarrow> string \<Rightarrow> string
     \<Rightarrow> int option \<Rightarrow> manifest_record list \<Rightarrow> string
     \<Rightarrow> error + (string \<times> manifest) option" where
  "generate_log_file glob force stdin stamp isotime project_name project_type iteration records notes =
     (let filename =
            (if iteration \<noteq> None \<and> iteration \<noteq> Some 0
             then ''rollback_'' @ project_name @ ''_iter'' @ str_int (the iteration) @ ''_''
                    @ stamp @ ''.yaml''
             else ''rollback_'' @ project_name @ ''_'' @ stamp @ ''.yaml'');
          log_data = \<lparr>m_project = project_name, m_iteration = iteration,
                      m_project_type = project_type, m_timestamp = isotime,
                      m_notes = (if notes = [] then ''Auto-generated log for '' @ project_name
                                 else notes),
                      inserted_records = records, rollback_status = ''pending'',
                      rollback_timestamp = None\<rparr>
      in if check_duplicate_log glob project_name iteration
            \<and> glob (''rollback_'' @ project_name @ ''_iter'' @ str_int_opt iteration
                      @ ''_*.yaml'') \<noteq> []
            \<and> \<not> force
         then (case stdin of
                 [] \<Rightarrow> Inl EOFError
               | response # rest \<Rightarrow>
                   if affirmative response then Inr (Some (filename, log_data)) else Inr None)
         else Inr (Some (filename, log_data)))"

definition logger_by_project ::
  "(string \<Rightarrow> string list) \<Rightarrow> bool \<Rightarrow> string list \<Rightarrow> string \<Rightarrow> string \<Rightarrow> db \<Rightarrow> string
     \<Rightarrow> int option \<Rightarrow> error + (string \<times> manifest) option" where
  "logger_by_project glob force stdin stamp isotime d project_name iteration =
     (case logger_records d project_name iteration of
        None \<Rightarrow> Inr None
      | Some records \<Rightarrow>
          (case latest_project (filter (\<lambda>p. p_name p = project_name) (projects d)) of
             None \<Rightarrow> Inr None
           | Some project \<Rightarrow>
               generate_log_file glob force stdin stamp isotime (p_name project) (p_type project)
                 iteration records []))"

subsection \<open>The plan as one list\<close>

text \<open>
  The statements of a plan run one after the other, up to the first that fails. The
  nested loops of \<^verbatim>\<open>_execute_rollback\<close> are shown below to run the previewed plan in
  this way.
\<close>

fun run_plan :: "'s delete_stmt \<Rightarrow> (string \<times> manifest_record) list \<Rightarrow> 's \<Rightarrow> error + 's" where
  "run_plan del [] s = Inr s"
| "run_plan del ((t, r) # rest) s =
     (case delete_one del t r s of
        Inl e \<Rightarrow> Inl e
      | Inr s' \<Rightarrow> run_plan del rest s')"

text \<open>The position of a table in the declared order; 5 for a table that is not in it.\<close>

definition order_rank :: "string \<Rightarrow> nat" where
  "order_rank t = length (takeWhile (\<lambda>u. u \<noteq> t) ROLLBACK_ORDER)"

definition declared :: "manifest_record \<Rightarrow> bool" where
  "declared r = (m_table r \<in> set ROLLBACK_ORDER)"

subsection \<open>A store for the examples\<close>

text \<open>
  Modelled from the spec: the schema of the store is not part of the sources. The
  comments of \<^verbatim>\<open>ROLLBACK_ORDER\<close> name the foreign keys
  (\<^verbatim>\<open>synthesis_results.iteration_id\<close> into \<^verbatim>\<open>design_iterations\<close>,
  \<^verbatim>\<open>design_iterations.project_id\<close> into \<^verbatim>\<open>projects\<close>), and the spec counts a
  remaining foreign-key reference as a failed deletion. So a DELETE removes the rows
  with the identifier, removes nothing when there is none, and fails when another row
  still refers to a row it would remove. It is the instance of the statement used in
  the examples; the theorems hold for every statement.
\<close>

definition sql_delete :: "db delete_stmt" where
  "sql_delete t i d =
     (if t = ''synthesis_results'' then
        Inr (d\<lparr>synthesis_results := filter (\<lambda>r. sr_id r \<noteq> i) (synthesis_results d)\<rparr>)
      else if t = ''rules_effectiveness'' then
        Inr (d\<lparr>rules_effectiveness := filter (\<lambda>r. eff_id r \<noteq> i) (rules_effectiveness d)\<rparr>)
      else if t = ''design_iterations'' then
        (if list_ex (\<lambda>r. di_id r = i) (design_iterations d)
            \<and> list_ex (\<lambda>s. sr_iteration_id s = i) (synthesis_results d)
         then Inl ''violates foreign key constraint on synthesis_results''
         else Inr (d\<lparr>design_iterations := filter (\<lambda>r. di_id r \<noteq> i) (design_iterations d)\<rparr>))
      else if t = ''design_patterns'' then
        Inr (d\<lparr>design_patterns := filter (\<lambda>r. dp_id r \<noteq> i) (design_patterns d)\<rparr>)
      else if t = ''projects'' then
        (if list_ex (\<lambda>p. p_id p = i) (projects d)
            \<and> list_ex (\<lambda>r. di_project_id r = i) (design_iterations d)
         then Inl ''violates foreign key constraint on design_iterations''
         else Inr (d\<lparr>projects := filter (\<lambda>p. p_id p \<noteq> i) (projects d)\<rparr>))
      else Inl ''relation does not exist'')"

text \<open>
  The scenario of the spec: project FIR128 with iterations 1, 2, 3 and synthesis results
  II = 264, 134, 128, three rules, and one statistics row for the context \<^verbatim>\<open>fir\<close>.
\<close>

definition kb_rules :: "rule_row list" where
  "kb_rules =
     [\<lparr>r_id = ''r1'', rule_code = Some ''P001'',
       rule_text = ''Merge related operations into one loop'', category = ''structure'',
       priority = 8\<rparr>,
      \<lparr>r_id = ''r2'', rule_code = Some ''P002'',
       rule_text = ''Apply pipeline rewind to finite-iteration loops'',
       category = ''pipeline'', priority = 7\<rparr>,
      \<lparr>r_id = ''r3'', rule_code = None,
       rule_text = ''Always pipeline the innermost loop'', category = ''pipeline'',
       priority = 9\<rparr>]"

definition kb :: db where
  "kb = \<lparr>projects = [], design_iterations = [], synthesis_results = [],
         design_patterns = [], hls_rules = kb_rules, rules_effectiveness = []\<rparr>"

definition fir_iteration :: "uuid \<Rightarrow> int \<Rightarrow> iteration_row" where
  "fir_iteration i n =
     \<lparr>di_id = i, di_project_id = ''p1'', iteration_number = n,
      approach_description = Some ''step'', di_created_at = n\<rparr>"

definition fir_db :: db where
  "fir_db =
     \<lparr>projects = [\<lparr>p_id = ''p1'', p_name = ''FIR128'', p_type = ''fir'',
                    p_description = None, p_created_at = 0\<rparr>],
      design_iterations = [fir_iteration ''i1'' 1, fir_iteration ''i2'' 2, fir_iteration ''i3'' 3],
      synthesis_results =
        [\<lparr>sr_id = ''s1'', sr_iteration_id = ''i1'', ii_achieved = Some 264\<rparr>,
         \<lparr>sr_id = ''s2'', sr_iteration_id = ''i2'', ii_achieved = Some 134\<rparr>,
         \<lparr>sr_id = ''s3'', sr_iteration_id = ''i3'', ii_achieved = Some 128\<rparr>],
      design_patterns = [],
      hls_rules = kb_rules,
      rules_effectiveness =
        [\<lparr>eff_id = ''e1'', eff_rule_id = ''r1'', eff_project_type = ''fir'',
          times_applied = 1, success_count = 1, avg_ii_improvement = Some 130\<rparr>]\<rparr>"

definition entry :: "string \<Rightarrow> string \<Rightarrow> manifest_record" where
  "entry t i = \<lparr>m_table = t, m_id = Some i, m_note = []\<rparr>"

definition log_of :: "manifest_record list \<Rightarrow> string \<Rightarrow> manifest" where
  "log_of records status =
     \<lparr>m_project = ''FIR128'', m_iteration = Some 3, m_project_type = ''fir'',
      m_timestamp = ''20251012_101500'', m_notes = ''Auto-generated log for FIR128'',
      inserted_records = records, rollback_status = status, rollback_timestamp = None\<rparr>"

definition upd :: "bool \<Rightarrow> rat \<Rightarrow> RuleEffectivenessUpdate" where
  "upd s v = \<lparr>u_rule_code = Some ''P001'', u_rule_text = None, u_project_type = ''fir'',
              was_successful = s, ii_improvement = Some v\<rparr>"

section \<open>Properties and example data\<close>


text \<open>The statistics of a pair after a sequence of requests, if no request failed.\<close>

definition stats_after :: "error + db \<Rightarrow> uuid \<Rightarrow> string \<Rightarrow> (int \<times> int \<times> rat option) option" where
  "stats_after res rid ptype =
     (case res of Inl e \<Rightarrow> None | Inr d \<Rightarrow> stats_of (rules_effectiveness d) rid ptype)"

text \<open>
  Rollback logs for the scenario: one that lists the parent rows first, one with a
  synthesis result and the project that still has iterations, one with an entry of a
  table kind outside the declared order, and the log that the logger writes for
  iteration 3 of FIR128.
\<close>

definition parent_first :: "manifest_record list" where
  "parent_first = [entry ''projects'' ''p1'', entry ''design_iterations'' ''i3'',
                   entry ''synthesis_results'' ''s3'', entry ''synthesis_results'' ''s2'']"

definition child_then_parent :: "manifest_record list" where
  "child_then_parent = [entry ''synthesis_results'' ''s3'', entry ''projects'' ''p1'']"

definition with_unknown :: "manifest_record list" where
  "with_unknown = [entry ''hls_rules'' ''r1'', entry ''synthesis_results'' ''s3'']"

definition iter3_log :: "manifest_record list" where
  "iter3_log =
     [\<lparr>m_table = ''projects'', m_id = Some ''p1'', m_note = ''Project: FIR128''\<rparr>,
      \<lparr>m_table = ''design_iterations'', m_id = Some ''i3'', m_note = ''Iteration #3: step''\<rparr>,
      \<lparr>m_table = ''synthesis_results'', m_id = Some ''s3'', m_note = ''Synthesis: II=128''\<rparr>,
      \<lparr>m_table = ''rules_effectiveness'', m_id = Some ''e1'',
       m_note = ''Rule effectiveness for fir''\<rparr>]"


definition merge_app :: RuleApplication where
  "merge_app = \<lparr>ra_rule_code = Some ''P001'', rule_keywords = Some [''merge''],
                 rule_description = Some ''Merge related operations into one loop'',
                 previous_ii = 264, current_ii = 134, ra_success = True\<rparr>"

definition keyless_app :: RuleApplication where
  "keyless_app = \<lparr>ra_rule_code = Some ''P002'', rule_keywords = None,
                   rule_description = Some ''Apply pipeline rewind to finite-iteration loops'',
                   previous_ii = 134, current_ii = 128, ra_success = True\<rparr>"

definition rewind_app :: RuleApplication where
  "rewind_app = \<lparr>ra_rule_code = Some ''P002'', rule_keywords = Some [''pipeline''],
                  rule_description = Some ''Apply pipeline rewind to finite-iteration loops'',
                  previous_ii = 134, current_ii = 128, ra_success = True\<rparr>"

definition fir_request :: "RuleApplication list \<Rightarrow> CompleteIterationCreate" where
  "fir_request apps =
     \<lparr>c_project_id = ''p1'', c_project_name = Some ''FIR128'', c_project_type = ''fir'',
      c_iteration = \<lparr>dic_project_id = ''p1'', dic_approach_description = ''merged loop''\<rparr>,
      c_synthesis_result = \<lparr>srd_ii_achieved = 134\<rparr>,
      rules_applied = apps\<rparr>"

definition fresh_ids :: "nat \<Rightarrow> uuid" where
  "fresh_ids k = ''e'' @ str_nat k"

text \<open>
  The plan in the words of the spec: the entries whose table kind is in the declared
  order, sorted by the position of their kind in that order; the sort is stable, so
  entries of one kind keep their manifest order.
\<close>

definition planned :: "manifest_record list \<Rightarrow> manifest_record list" where
  "planned records = sort_key (\<lambda>r. order_rank (m_table r)) (filter declared records)"

text \<open>
  The deletions of a list of entries, one after the other: for each entry the statement
  \<^verbatim>\<open>DELETE FROM table WHERE id = $1\<close> of its own table and identifier, up to the
  first that fails.
\<close>

fun deletes_in_sequence :: "'s delete_stmt \<Rightarrow> manifest_record list \<Rightarrow> 's \<Rightarrow> error + 's" where
  "deletes_in_sequence del [] s = Inr s"
| "deletes_in_sequence del (r # rs) s =
     (case m_id r of
        None \<Rightarrow> Inl (TypeError ''NoneType object is not subscriptable'')
      | Some rec_id \<Rightarrow>
          (case del (m_table r) rec_id s of
             Inl msg \<Rightarrow> Inl (StorageError msg)
           | Inr s' \<Rightarrow> deletes_in_sequence del rs s'))"

text \<open>A log that lists an iteration before its synthesis result.\<close>

definition iteration_first :: "manifest_record list" where
  "iteration_first = [entry ''design_iterations'' ''i3'', entry ''synthesis_results'' ''s3'']"

text \<open>A store that only records the statements it is given, in order.\<close>

definition trace_delete :: "(string \<times> string) list delete_stmt" where
  "trace_delete t i issued = Inr (issued @ [(t, i)])"

text \<open>
  The rows of a pair and the rows of the other pairs, in table order, and the three
  statistics of a row.
\<close>

definition pair_rows :: "effectiveness_row list \<Rightarrow> uuid \<Rightarrow> string \<Rightarrow> effectiveness_row list" where
  "pair_rows tbl rid ptype = filter (\<lambda>r. eff_rule_id r = rid \<and> eff_project_type r = ptype) tbl"

definition other_rows :: "effectiveness_row list \<Rightarrow> uuid \<Rightarrow> string \<Rightarrow> effectiveness_row list" where
  "other_rows tbl rid ptype =
     filter (\<lambda>r. \<not> (eff_rule_id r = rid \<and> eff_project_type r = ptype)) tbl"

definition row_stats :: "effectiveness_row \<Rightarrow> int \<times> int \<times> rat option" where
  "row_stats r = (times_applied r, success_count r, avg_ii_improvement r)"

text \<open>
  The unique constraint of the table: at most one row for each (rule, context) pair.
\<close>

definition pairs_unique :: "effectiveness_row list \<Rightarrow> bool" where
  "pairs_unique tbl = distinct (map (\<lambda>r. (eff_rule_id r, eff_project_type r)) tbl)"

text \<open>A statistics table with history for two rules.\<close>

definition busy_stats :: "effectiveness_row list" where
  "busy_stats =
     [\<lparr>eff_id = ''e1'', eff_rule_id = ''r1'', eff_project_type = ''fir'',
       times_applied = 5, success_count = 3, avg_ii_improvement = Some 40\<rparr>,
      \<lparr>eff_id = ''e2'', eff_rule_id = ''r2'', eff_project_type = ''fir'',
       times_applied = 2, success_count = 2, avg_ii_improvement = Some 6\<rparr>]"

text \<open>An empty directory of logs.\<close>

definition no_logs :: "string \<Rightarrow> string list" where
  "no_logs pattern = []"

text \<open>The mean of the improvements of the successes, 0 when there is none.\<close>

definition mean_of :: "(uuid \<times> bool \<times> rat) list \<Rightarrow> rat" where
  "mean_of os = (if successes os = 0 then 0 else success_total os / of_int (successes os))"

section \<open>Lemmas about the statistics table\<close>

lemma find_map_pres:
  assumes "\<And>x. P (f x) = P x"
  shows "find P (map f xs) = map_option f (find P xs)"
  using assms by (induction xs) auto

lemma fetch_update_effectiveness:
  "fetch_effectiveness (update_effectiveness tbl eid t s a) rid ptype =
     map_option (\<lambda>r. if eff_id r = eid
                      then r\<lparr>times_applied := t, success_count := s, avg_ii_improvement := a\<rparr>
                      else r)
       (fetch_effectiveness tbl rid ptype)"
  unfolding fetch_effectiveness_def update_effectiveness_def
  by (rule find_map_pres) simp

lemma stats_update_hit:
  assumes "fetch_effectiveness tbl rid ptype = Some existing"
  shows "stats_of (update_effectiveness tbl (eff_id existing) t s a) rid ptype = Some (t, s, a)"
  using assms by (simp add: stats_of_def fetch_update_effectiveness)

lemma find_append_miss:
  "find P xs = None \<Longrightarrow> find P (xs @ ys) = find P ys"
  by (induction xs) (auto split: if_splits)

lemma stats_insert_miss:
  assumes "fetch_effectiveness tbl rid ptype = None"
  shows "stats_of (insert_effectiveness tbl eid rid ptype t s a) rid ptype = Some (t, s, a)"
  using assms
  by (simp add: stats_of_def fetch_effectiveness_def insert_effectiveness_def find_append_miss)

lemma overwrite_stats:
  "stats_of (fst (record_rule_effectiveness_overwrite fresh tbl rid ptype success imp)) rid ptype
     = Some (1, if success then 1 else 0, Some (if success then imp else 0))"
  by (cases "fetch_effectiveness tbl rid ptype")
     (simp_all add: record_rule_effectiveness_overwrite_def stats_update_hit stats_insert_miss)

section \<open>Lemmas about accumulate mode\<close>

lemma successes_Cons: "successes ((f, s, i) # os) = (if s then 1 else 0) + successes os"
  by (simp add: successes_def)

lemma successes_append: "successes (xs @ ys) = successes xs + successes ys"
  by (simp add: successes_def)

lemma success_total_append: "success_total (xs @ ys) = success_total xs + success_total ys"
  by (simp add: success_total_def)

lemma successes_nonneg: "0 \<le> successes os"
  by (simp add: successes_def)

lemma mean_times_successes: "mean_of os * of_int (successes os) = success_total os"
  by (simp add: mean_of_def success_total_def successes_def)

lemma record_step_stats:
  assumes "stats_of tbl rid ptype = Some (t, c, Some a)"
  shows "stats_of (fst (record_rule_effectiveness f tbl rid ptype s i)) rid ptype =
     Some (t + 1, c + (if s then 1 else 0),
           Some (if c + (if s then 1 else 0) > 0
                 then (a * of_int c + (if s then i else 0)) / of_int (c + (if s then 1 else 0))
                 else 0))"
proof -
  from assms obtain ex where ex: "fetch_effectiveness tbl rid ptype = Some ex"
    and "times_applied ex = t" "success_count ex = c" "avg_ii_improvement ex = Some a"
    by (auto simp: stats_of_def)
  then show ?thesis
    by (simp add: record_rule_effectiveness_def Let_def stats_update_hit)
qed

lemma record_first_stats:
  assumes "fetch_effectiveness tbl rid ptype = None"
  shows "stats_of (fst (record_rule_effectiveness f tbl rid ptype s i)) rid ptype =
     Some (1, if s then 1 else 0, Some (if s then i else 0))"
  using assms by (simp add: record_rule_effectiveness_def stats_insert_miss)

text \<open>
  The invariant of the running mean: after the applications \<open>done\<close> the row holds their
  number, the number of successes among them and the mean of the successes.
\<close>

lemma record_all_invariant:
  assumes "stats_of tbl rid ptype =
             Some (int (length done), successes done, Some (mean_of done))"
  shows "stats_of (record_all tbl rid ptype os) rid ptype =
           Some (int (length (done @ os)), successes (done @ os), Some (mean_of (done @ os)))"
  using assms
proof (induction os arbitrary: tbl "done")
  case Nil
  then show ?case by simp
next
  case (Cons o1 os)
  obtain f s i where o1: "o1 = (f, s, i)" by (cases o1)
  let ?tbl = "fst (record_rule_effectiveness f tbl rid ptype s i)"
  have tot: "success_total (done @ [o1]) =
               mean_of done * of_int (successes done) + (if s then i else 0)"
    by (simp add: success_total_append mean_times_successes o1 success_total_def)
  have cnt: "successes (done @ [o1]) = successes done + (if s then 1 else 0)"
    by (simp add: successes_append successes_Cons o1 successes_def)
  have pos: "(successes (done @ [o1]) > 0) = (successes (done @ [o1]) \<noteq> 0)"
    using successes_nonneg [of "done @ [o1]"] by linarith
  have "stats_of ?tbl rid ptype =
          Some (int (length (done @ [o1])), successes (done @ [o1]), Some (mean_of (done @ [o1])))"
    unfolding record_step_stats [OF Cons.prems]
    using pos by (simp add: mean_of_def [of "done @ [o1]"] tot cnt)
  from Cons.IH [OF this] show ?case by (simp add: o1)
qed

text \<open>
  On the import script's function, and so on step 5 of the complete-iteration endpoint,
  accumulate mode is the mean over the successes: \<open>N\<close> applications to an absent row
  leave times_applied = \<open>N\<close>, success_count = the number of successes and
  avg_improvement = their mean, 0 without a success.
\<close>

lemma accumulate_from_absent:
  assumes "fetch_effectiveness tbl rid ptype = None" and "os \<noteq> []"
  shows "stats_of (record_all tbl rid ptype os) rid ptype =
           Some (int (length os), successes os,
                 Some (if successes os = 0 then 0 else success_total os / of_int (successes os)))"
proof -
  from assms(2) obtain f s i os' where os: "os = (f, s, i) # os'"
    by (cases os) auto
  have "stats_of (fst (record_rule_effectiveness f tbl rid ptype s i)) rid ptype =
          Some (int (length [(f, s, i)]), successes [(f, s, i)], Some (mean_of [(f, s, i)]))"
    by (simp add: record_first_stats [OF assms(1)] mean_of_def successes_def success_total_def)
  from record_all_invariant [OF this, of os'] show ?thesis
    by (simp add: os mean_of_def)
qed

section \<open>Lemmas about the rollback plan\<close>

lemma run_plan_append:
  "run_plan del (xs @ ys) s =
     (case run_plan del xs s of Inl e \<Rightarrow> Inl e | Inr s' \<Rightarrow> run_plan del ys s')"
  by (induction xs arbitrary: s) (auto split: sum.splits)

lemma delete_records_run_plan:
  "delete_records del t rs s = run_plan del (map (\<lambda>r. (t, r)) rs) s"
  by (induction rs arbitrary: s) (auto split: sum.splits)

lemma delete_tables_run_plan:
  "delete_tables del ts records s =
     run_plan del (concat (map (\<lambda>t. map (\<lambda>r. (t, r)) (filter (\<lambda>r. m_table r = t) records)) ts)) s"
  by (induction ts arbitrary: s)
     (auto simp: run_plan_append delete_records_run_plan split: sum.splits)

lemma execute_is_previewed_plan:
  "delete_tables del (determine_order records) records s =
     run_plan del (snd (dry_run_rollback records)) s"
  by (simp add: dry_run_rollback_def Let_def delete_tables_run_plan)

lemma block_absent:
  "t \<notin> m_table ` set records \<Longrightarrow> filter (\<lambda>r. m_table r = t) records = []"
  by (induction records) auto

lemma concat_blocks_filter:
  "concat (map (\<lambda>t. map (\<lambda>r. (t, r)) (filter (\<lambda>r. m_table r = t) records))
            (filter (\<lambda>t. t \<in> m_table ` set records) ts))
   = concat (map (\<lambda>t. map (\<lambda>r. (t, r)) (filter (\<lambda>r. m_table r = t) records)) ts)"
  by (induction ts) (auto simp: block_absent)

lemma plan_blocks:
  "snd (dry_run_rollback records) =
     concat (map (\<lambda>t. map (\<lambda>r. (t, r)) (filter (\<lambda>r. m_table r = t) records)) ROLLBACK_ORDER)"
  by (simp add: dry_run_rollback_def determine_order_def Let_def concat_blocks_filter)

lemma order_rank_values:
  "order_rank ''synthesis_results'' = 0"
  "order_rank ''rules_effectiveness'' = 1"
  "order_rank ''design_iterations'' = 2"
  "order_rank ''design_patterns'' = 3"
  "order_rank ''projects'' = 4"
  by (simp_all add: order_rank_def ROLLBACK_ORDER_def)

lemma plan_sorted:
  "sorted_wrt (\<lambda>x y. order_rank (fst x) \<le> order_rank (fst y)) (snd (dry_run_rollback records))"
  unfolding plan_blocks
  by (simp add: ROLLBACK_ORDER_def sorted_wrt_append sorted_wrt_map order_rank_values
      ball_Un image_iff Ball_def)

lemma plan_before:
  assumes "i < length (snd (dry_run_rollback records))"
    and "j < length (snd (dry_run_rollback records))"
    and "order_rank (fst (snd (dry_run_rollback records) ! i))
           < order_rank (fst (snd (dry_run_rollback records) ! j))"
  shows "i < j"
proof (rule ccontr)
  assume "\<not> i < j"
  then have "j < i \<or> j = i" by arith
  then show False
  proof
    assume "j < i"
    from sorted_wrt_nth_less [OF plan_sorted this assms(1)] assms(3) show False by simp
  next
    assume "j = i"
    with assms(3) show False by simp
  qed
qed

lemma filter_block:
  "filter (\<lambda>x. fst x = k) (map (\<lambda>r. (t, r)) xs) = (if t = k then map (\<lambda>r. (t, r)) xs else [])"
  by (induction xs) auto

lemma within_kind_blocks:
  "distinct ts \<Longrightarrow>
   map snd (filter (\<lambda>x. fst x = k)
     (concat (map (\<lambda>t. map (\<lambda>r. (t, r)) (filter (\<lambda>r. m_table r = t) records)) ts)))
   = (if k \<in> set ts then filter (\<lambda>r. m_table r = k) records else [])"
proof (induction ts)
  case Nil
  then show ?case by simp
next
  case (Cons t ts)
  then show ?case
    by (cases "t = k") (simp_all add: filter_block comp_def)
qed

lemma distinct_ROLLBACK_ORDER: "distinct ROLLBACK_ORDER"
  by (simp add: ROLLBACK_ORDER_def)

lemma plan_within_kind:
  "map snd (filter (\<lambda>x. fst x = k) (snd (dry_run_rollback records)))
     = (if k \<in> set ROLLBACK_ORDER then filter (\<lambda>r. m_table r = k) records else [])"
  unfolding plan_blocks by (rule within_kind_blocks [OF distinct_ROLLBACK_ORDER])

lemma determine_order_distinct: "distinct (determine_order rs)"
  unfolding determine_order_def Let_def by (rule distinct_filter [OF distinct_ROLLBACK_ORDER])

lemma determine_order_set:
  "set (determine_order rs) = m_table ` set rs \<inter> set ROLLBACK_ORDER"
  unfolding determine_order_def Let_def by auto

lemma plan_entries:
  "set (snd (dry_run_rollback records)) = {(t, r). r \<in> set records \<and> m_table r = t \<and> declared r}"
  unfolding plan_blocks declared_def by auto

section \<open>Atomic execution of the rollback\<close>

lemma run_plan_fails_at:
  assumes "run_plan del pre s = Inr s1" and "delete_one del t r s1 = Inl e"
  shows "run_plan del (pre @ (t, r) # post) s = Inl e"
  using assms by (simp add: run_plan_append)

lemma execute_rollback_plan:
  "execute_rollback del now log_data s =
     (case run_plan del (snd (dry_run_rollback (inserted_records log_data))) s of
        Inl e \<Rightarrow> (False, s, None)
      | Inr s' \<Rightarrow> (True, s', Some (update_log_status now log_data)))"
  by (simp add: execute_rollback_def Let_def execute_is_previewed_plan)

text \<open>
  Claim C3. The deletions of a manifest run as one transaction. When a deletion of the
  plan fails, after any number of deletions that succeeded, the rollback returns
  \<^verbatim>\<open>False\<close>, the store is what it was before the call and the log file is not
  rewritten, so its status stays as it was.
\<close>

theorem rollback_is_atomic:
  assumes "snd (dry_run_rollback (inserted_records log_data)) = pre @ (t, r) # post"
    and "run_plan del pre s = Inr s1"
    and "delete_one del t r s1 = Inl e"
  shows "execute_rollback del now log_data s = (False, s, None)
       \<and> (rollback_status log_data \<noteq> ''completed'' \<and> affirmative response \<longrightarrow>
            rollback del now (response # rest) False (s, Some log_data)
              = (Inr False, s, Some log_data))
       \<and> (rollback_status log_data = ''completed'' \<and> affirmative again \<and> affirmative response
            \<longrightarrow>
            rollback del now (again # response # rest) False (s, Some log_data)
              = (Inr False, s, Some log_data))"
proof -
  have "run_plan del (snd (dry_run_rollback (inserted_records log_data))) s = Inl e"
    unfolding assms(1) using assms(2,3) by (rule run_plan_fails_at)
  then have ex: "execute_rollback del now log_data s = (False, s, None)"
    by (simp add: execute_rollback_plan)
  then show ?thesis
    by (simp add: rollback_def)
qed

lemma child_then_parent_preview:
  "snd (dry_run_rollback child_then_parent) =
     [(''synthesis_results'', entry ''synthesis_results'' ''s3'')]
     @ (''projects'', entry ''projects'' ''p1'') # []"
  by (simp add: dry_run_rollback_def determine_order_def ROLLBACK_ORDER_def child_then_parent_def
      entry_def Let_def)

lemma child_deleted:
  "run_plan sql_delete [(''synthesis_results'', entry ''synthesis_results'' ''s3'')] fir_db
     = Inr (fir_db\<lparr>synthesis_results := take 2 (synthesis_results fir_db)\<rparr>)"
  by (simp add: delete_one_def sql_delete_def entry_def fir_db_def)

lemma parent_refused:
  "delete_one sql_delete ''projects'' (entry ''projects'' ''p1'')
     (fir_db\<lparr>synthesis_results := take 2 (synthesis_results fir_db)\<rparr>)
     = Inl (StorageError ''violates foreign key constraint on design_iterations'')"
  by (simp add: delete_one_def sql_delete_def entry_def fir_db_def fir_iteration_def)

lemma affirmative_y: "affirmative ''y''"
  by code_simp

theorem rollback_is_atomic_witness:
  "execute_rollback sql_delete ''now'' (log_of child_then_parent ''pending'') fir_db
     = (False, fir_db, None)
   \<and> rollback sql_delete ''now'' [''y''] False (fir_db, Some (log_of child_then_parent ''pending''))
     = (Inr False, fir_db, Some (log_of child_then_parent ''pending''))
   \<and> fir_db\<lparr>synthesis_results := take 2 (synthesis_results fir_db)\<rparr> \<noteq> fir_db"
proof -
  have recs: "inserted_records (log_of child_then_parent ''pending'') = child_then_parent"
    by (simp add: log_of_def)
  have st: "rollback_status (log_of child_then_parent ''pending'') \<noteq> ''completed''"
    by (simp add: log_of_def)
  note t = rollback_is_atomic [of "log_of child_then_parent ''pending''", unfolded recs,
      OF child_then_parent_preview child_deleted parent_refused,
      of "''now''" "''y''" "[]" "''y''"]
  have ne: "fir_db\<lparr>synthesis_results := take 2 (synthesis_results fir_db)\<rparr> \<noteq> fir_db"
  proof
    assume "fir_db\<lparr>synthesis_results := take 2 (synthesis_results fir_db)\<rparr> = fir_db"
    then have "synthesis_results (fir_db\<lparr>synthesis_results := take 2 (synthesis_results fir_db)\<rparr>)
                 = synthesis_results fir_db" by simp
    then show False by (simp add: fir_db_def)
  qed
  from t st affirmative_y ne show ?thesis by simp
qed

section \<open>Lemmas about the planned order\<close>

lemma order_rank_declared:
  "t \<in> set ROLLBACK_ORDER \<Longrightarrow> order_rank t < 5 \<and> ROLLBACK_ORDER ! order_rank t = t"
  unfolding ROLLBACK_ORDER_def set_simps insert_iff empty_iff
  by (elim disjE) (simp_all add: order_rank_values [unfolded ROLLBACK_ORDER_def])

lemma order_rank_inj:
  assumes "t \<in> set ROLLBACK_ORDER" and "u \<in> set ROLLBACK_ORDER"
    and "order_rank t = order_rank u"
  shows "t = u"
proof -
  have "t = ROLLBACK_ORDER ! order_rank t"
    using order_rank_declared [OF assms(1)] by simp
  also have "\<dots> = ROLLBACK_ORDER ! order_rank u"
    by (simp only: assms(3))
  also have "\<dots> = u"
    using order_rank_declared [OF assms(2)] by (rule conjunct2)
  finally show ?thesis .
qed

lemma mset_blocks:
  "distinct ts \<Longrightarrow>
   mset (concat (map (\<lambda>t. filter (\<lambda>r. m_table r = t) records) ts))
     = mset (filter (\<lambda>r. m_table r \<in> set ts) records)"
proof (induction ts)
  case Nil
  then show ?case by simp
next
  case (Cons t ts)
  have "mset (filter (\<lambda>r. m_table r = t) records) + mset (filter (\<lambda>r. m_table r \<in> set ts) records)
          = mset (filter (\<lambda>r. m_table r = t \<or> m_table r \<in> set ts) records)"
    using Cons.prems by (induction records) auto
  with Cons show ?case by simp
qed

lemma plan_fst: "x \<in> set (snd (dry_run_rollback records)) \<Longrightarrow> fst x = m_table (snd x)"
  by (auto simp: plan_entries)

lemma plan_snd_blocks:
  "map snd (snd (dry_run_rollback records))
     = concat (map (\<lambda>t. filter (\<lambda>r. m_table r = t) records) ROLLBACK_ORDER)"
  unfolding plan_blocks by (simp add: map_concat comp_def)

lemma plan_is_planned: "map snd (snd (dry_run_rollback records)) = planned records"
  unfolding planned_def
proof (rule properties_for_sort_key [symmetric])
  show "mset (map snd (snd (dry_run_rollback records))) = mset (filter declared records)"
    unfolding plan_snd_blocks declared_def by (rule mset_blocks [OF distinct_ROLLBACK_ORDER])
next
  fix k assume "k \<in> set (map snd (snd (dry_run_rollback records)))"
  then have k: "m_table k \<in> set ROLLBACK_ORDER"
    by (auto simp: plan_entries declared_def)
  have "filter (\<lambda>x. order_rank (m_table k) = order_rank (m_table x))
          (map snd (snd (dry_run_rollback records)))
        = filter (\<lambda>x. m_table x = m_table k) (map snd (snd (dry_run_rollback records)))"
    by (rule filter_cong) (auto simp: plan_entries declared_def dest: order_rank_inj [OF k])
  also have "\<dots> = map snd (filter (\<lambda>x. fst x = m_table k) (snd (dry_run_rollback records)))"
    unfolding filter_map comp_def
    by (rule arg_cong [where f = "map snd"], rule filter_cong) (auto dest: plan_fst)
  also have "\<dots> = filter (\<lambda>r. m_table r = m_table k) records"
    using k by (simp add: plan_within_kind)
  also have "\<dots> = filter (\<lambda>x. order_rank (m_table k) = order_rank (m_table x))
                     (filter declared records)"
    unfolding filter_filter
    by (rule filter_cong) (auto simp: declared_def k dest: order_rank_inj [OF k])
  finally show "filter (\<lambda>x. order_rank (m_table k) = order_rank (m_table x))
          (map snd (snd (dry_run_rollback records)))
        = filter (\<lambda>x. order_rank (m_table k) = order_rank (m_table x))
            (filter declared records)" .
next
  have "sorted_wrt (\<lambda>x y. order_rank (m_table (snd x)) \<le> order_rank (m_table (snd y)))
          (snd (dry_run_rollback records))"
    by (rule sorted_wrt_mono_rel [OF _ plan_sorted]) (auto simp: plan_entries)
  then show "sorted (map (\<lambda>r. order_rank (m_table r)) (map snd (snd (dry_run_rollback records))))"
    by (simp add: sorted_map sorted_wrt_map)
qed

lemma preview_is_planned:
  "dry_run_rollback records =
     (filter (\<lambda>t. t \<in> m_table ` set records) ROLLBACK_ORDER,
      map (\<lambda>r. (m_table r, r)) (planned records))"
proof -
  have "snd (dry_run_rollback records)
          = map (\<lambda>x. (m_table (snd x), snd x)) (snd (dry_run_rollback records))"
    by (rule map_idI [symmetric]) (auto dest: plan_fst)
  also have "\<dots> = map (\<lambda>r. (m_table r, r)) (planned records)"
    unfolding plan_is_planned [symmetric] by (simp add: comp_def)
  finally have "snd (dry_run_rollback records) = map (\<lambda>r. (m_table r, r)) (planned records)" .
  moreover have "fst (dry_run_rollback records)
                   = filter (\<lambda>t. t \<in> m_table ` set records) ROLLBACK_ORDER"
    by (simp add: dry_run_rollback_def determine_order_def Let_def)
  ultimately show ?thesis by (simp add: prod_eq_iff)
qed

lemma run_plan_sequence:
  "run_plan del (map (\<lambda>r. (m_table r, r)) rs) s = deletes_in_sequence del rs s"
  by (induction rs arbitrary: s) (auto simp: delete_one_def split: option.splits sum.splits)

lemma execute_rollback_planned:
  "execute_rollback del now log_data s =
     (case deletes_in_sequence del (planned (inserted_records log_data)) s of
        Inl e \<Rightarrow> (False, s, None)
      | Inr s' \<Rightarrow> (True, s', Some (update_log_status now log_data)))"
  unfolding execute_rollback_plan
  by (simp add: preview_is_planned run_plan_sequence)

lemma planned_mset: "mset (planned records) = mset (filter declared records)"
  by (simp add: planned_def)

lemma planned_set: "set (planned records) = {r \<in> set records. declared r}"
  by (auto simp: planned_def)

lemma planned_sorted: "sorted (map (\<lambda>r. order_rank (m_table r)) (planned records))"
  by (simp add: planned_def)

lemma planned_within_kind:
  "filter (\<lambda>r. m_table r = k) (planned records)
     = filter (\<lambda>r. m_table r = k \<and> declared r) records"
proof -
  have "filter (\<lambda>r. m_table r = k) (planned records)
          = map snd (filter (\<lambda>x. fst x = k) (map (\<lambda>r. (m_table r, r)) (planned records)))"
    by (simp add: filter_map comp_def)
  also have "\<dots> = map snd (filter (\<lambda>x. fst x = k) (snd (dry_run_rollback records)))"
    by (simp only: preview_is_planned snd_conv)
  also have "\<dots> = (if k \<in> set ROLLBACK_ORDER then filter (\<lambda>r. m_table r = k) records else [])"
    by (rule plan_within_kind)
  also have "\<dots> = filter (\<lambda>r. m_table r = k \<and> declared r) records"
    by (auto simp: declared_def intro: filter_cong)
  finally show ?thesis .
qed

lemma planned_before:
  assumes "i < length (planned records)" and "j < length (planned records)"
    and "order_rank (m_table (planned records ! i)) < order_rank (m_table (planned records ! j))"
  shows "i < j"
proof (rule ccontr)
  assume "\<not> i < j"
  then have "j \<le> i" by simp
  from sorted_nth_mono [OF planned_sorted, of j i records] this assms(1,2)
  have "order_rank (m_table (planned records ! j)) \<le> order_rank (m_table (planned records ! i))"
    by simp
  with assms(3) show False by simp
qed

lemma planned_permutation:
  assumes "mset records' = mset records"
  shows "mset (planned records') = mset (planned records)"
    and "determine_order records' = determine_order records"
proof -
  show "mset (planned records') = mset (planned records)"
    unfolding planned_mset mset_filter by (simp only: assms)
  from assms have "set records' = set records" by (rule mset_eq_setD)
  then show "determine_order records' = determine_order records"
    by (simp add: determine_order_def)
qed

lemma trace_sequence:
  "\<forall>r \<in> set rs. m_id r \<noteq> None \<Longrightarrow>
   deletes_in_sequence trace_delete rs issued
     = Inr (issued @ map (\<lambda>r. (m_table r, the (m_id r))) rs)"
  by (induction rs arbitrary: issued) (auto simp: trace_delete_def)

section \<open>The order of the rollback\<close>

text \<open>
  Claim C2, as amended. For every manifest the preview and the execution follow one
  plan: the entries whose table kind is in the declared order, grouped by kind in the
  order synthesis_results, rules_effectiveness, design_iterations, design_patterns,
  projects, each kind in manifest order. The order printed lists the kinds of the
  manifest that the declared order names, once each. \<^verbatim>\<open>_execute_rollback\<close> and
  \<^verbatim>\<open>rollback\<close> issue the deletions of exactly this plan in sequence and commit when
  all succeed; the dry run changes nothing. So every synthesis_results entry is deleted
  before every design_iterations entry, which is deleted before every projects entry,
  whatever the order of the entries in the file. Kinds outside the declared order are
  not listed.
\<close>

theorem rollback_deletion_order:
  "dry_run_rollback records
     = (filter (\<lambda>t. t \<in> m_table ` set records) ROLLBACK_ORDER,
        map (\<lambda>r. (m_table r, r)) (planned records))
   \<and> execute_rollback del now log_data s
     = (case deletes_in_sequence del (planned (inserted_records log_data)) s of
          Inl e \<Rightarrow> (False, s, None)
        | Inr s' \<Rightarrow> (True, s', Some (update_log_status now log_data)))
   \<and> (rollback_status log_data \<noteq> ''completed'' \<and> affirmative response \<longrightarrow>
        rollback del now (response # rest) False (s, Some log_data)
          = (case deletes_in_sequence del (planned (inserted_records log_data)) s of
               Inl e \<Rightarrow> (Inr False, s, Some log_data)
             | Inr s' \<Rightarrow> (Inr True, s', Some (update_log_status now log_data))))
   \<and> (rollback_status log_data \<noteq> ''completed'' \<longrightarrow>
        rollback del now stdin True (s, Some log_data) = (Inr True, s, Some log_data))
   \<and> ((\<forall>r \<in> set (inserted_records log_data). m_id r \<noteq> None) \<longrightarrow>
        execute_rollback trace_delete now log_data issued
          = (True,
             issued @ map (\<lambda>r. (m_table r, the (m_id r))) (planned (inserted_records log_data)),
             Some (update_log_status now log_data)))
   \<and> mset (planned records) = mset (filter declared records)
   \<and> sorted (map (\<lambda>r. order_rank (m_table r)) (planned records))
   \<and> (\<forall>i j. i < length (planned records) \<and> j < length (planned records)
          \<and> m_table (planned records ! i) = ''synthesis_results''
          \<and> m_table (planned records ! j) = ''design_iterations'' \<longrightarrow> i < j)
   \<and> (\<forall>i j. i < length (planned records) \<and> j < length (planned records)
          \<and> m_table (planned records ! i) = ''design_iterations''
          \<and> m_table (planned records ! j) = ''projects'' \<longrightarrow> i < j)
   \<and> (\<forall>k. filter (\<lambda>r. m_table r = k) (planned records)
              = filter (\<lambda>r. m_table r = k \<and> declared r) records)
   \<and> (mset records' = mset records \<longrightarrow>
        fst (dry_run_rollback records') = fst (dry_run_rollback records)
        \<and> mset (planned records') = mset (planned records))
   \<and> distinct (fst (dry_run_rollback records))
   \<and> set (fst (dry_run_rollback records)) = m_table ` set records \<inter> set ROLLBACK_ORDER"
proof -
  let ?run = "deletes_in_sequence del (planned (inserted_records log_data)) s"
  have ex: "execute_rollback del now log_data s
     = (case ?run of
          Inl e \<Rightarrow> (False, s, None)
        | Inr s' \<Rightarrow> (True, s', Some (update_log_status now log_data)))"
    by (rule execute_rollback_planned)
  have rb: "rollback_status log_data \<noteq> ''completed'' \<and> affirmative response \<longrightarrow>
        rollback del now (response # rest) False (s, Some log_data)
          = (case ?run of
               Inl e \<Rightarrow> (Inr False, s, Some log_data)
             | Inr s' \<Rightarrow> (Inr True, s', Some (update_log_status now log_data)))"
    by (cases ?run) (simp_all add: rollback_def ex)
  have dry: "rollback_status log_data \<noteq> ''completed'' \<longrightarrow>
        rollback del now stdin True (s, Some log_data) = (Inr True, s, Some log_data)"
    by (simp add: rollback_def)
  have tr: "(\<forall>r \<in> set (inserted_records log_data). m_id r \<noteq> None) \<longrightarrow>
        execute_rollback trace_delete now log_data issued
          = (True,
             issued @ map (\<lambda>r. (m_table r, the (m_id r))) (planned (inserted_records log_data)),
             Some (update_log_status now log_data))"
  proof
    assume "\<forall>r \<in> set (inserted_records log_data). m_id r \<noteq> None"
    then have "\<forall>r \<in> set (planned (inserted_records log_data)). m_id r \<noteq> None"
      by (simp add: planned_set)
    from trace_sequence [OF this] show "execute_rollback trace_delete now log_data issued
          = (True,
             issued @ map (\<lambda>r. (m_table r, the (m_id r))) (planned (inserted_records log_data)),
             Some (update_log_status now log_data))"
      by (simp add: execute_rollback_planned)
  qed
  have sd: "\<forall>i j. i < length (planned records) \<and> j < length (planned records)
          \<and> m_table (planned records ! i) = ''synthesis_results''
          \<and> m_table (planned records ! j) = ''design_iterations'' \<longrightarrow> i < j"
  proof (intro allI impI)
    fix i j
    assume h: "i < length (planned records) \<and> j < length (planned records)
          \<and> m_table (planned records ! i) = ''synthesis_results''
          \<and> m_table (planned records ! j) = ''design_iterations''"
    then have "order_rank (m_table (planned records ! i))
                 < order_rank (m_table (planned records ! j))"
      by (simp only: order_rank_values)
    with h show "i < j" by (blast intro: planned_before)
  qed
  have dp: "\<forall>i j. i < length (planned records) \<and> j < length (planned records)
          \<and> m_table (planned records ! i) = ''design_iterations''
          \<and> m_table (planned records ! j) = ''projects'' \<longrightarrow> i < j"
  proof (intro allI impI)
    fix i j
    assume h: "i < length (planned records) \<and> j < length (planned records)
          \<and> m_table (planned records ! i) = ''design_iterations''
          \<and> m_table (planned records ! j) = ''projects''"
    then have "order_rank (m_table (planned records ! i))
                 < order_rank (m_table (planned records ! j))"
      by (simp only: order_rank_values)
    with h show "i < j" by (blast intro: planned_before)
  qed
  have wk: "\<forall>k. filter (\<lambda>r. m_table r = k) (planned records)
              = filter (\<lambda>r. m_table r = k \<and> declared r) records"
    by (simp only: planned_within_kind simp_thms)
  have fo: "fst (dry_run_rollback records) = determine_order records" for records
    by (simp add: dry_run_rollback_def Let_def)
  have pm: "mset records' = mset records \<longrightarrow>
        fst (dry_run_rollback records') = fst (dry_run_rollback records)
        \<and> mset (planned records') = mset (planned records)"
    unfolding fo using planned_permutation [of records' records] by blast
  have di: "distinct (fst (dry_run_rollback records))"
    unfolding fo by (rule determine_order_distinct)
  have se: "set (fst (dry_run_rollback records)) = m_table ` set records \<inter> set ROLLBACK_ORDER"
    unfolding fo by (rule determine_order_set)
  show ?thesis
    by (intro conjI preview_is_planned ex rb dry tr planned_mset planned_sorted sd dp wk pm di se)
qed

lemma iteration_first_planned:
  "planned iteration_first = [entry ''synthesis_results'' ''s3'', entry ''design_iterations'' ''i3'']"
  by (simp add: planned_def iteration_first_def declared_def entry_def order_rank_values)
     (simp add: ROLLBACK_ORDER_def)

lemma iteration_first_deleted:
  "deletes_in_sequence sql_delete
     [entry ''synthesis_results'' ''s3'', entry ''design_iterations'' ''i3''] fir_db
   = Inr (fir_db\<lparr>synthesis_results := take 2 (synthesis_results fir_db),
                 design_iterations := take 2 (design_iterations fir_db)\<rparr>)"
  by (simp add: sql_delete_def entry_def fir_db_def fir_iteration_def)

lemma iteration_first_refused:
  "deletes_in_sequence sql_delete iteration_first fir_db
   = Inl (StorageError ''violates foreign key constraint on synthesis_results'')"
  by (simp add: iteration_first_def sql_delete_def entry_def fir_db_def fir_iteration_def)

theorem rollback_deletion_order_witness:
  "rollback sql_delete ''now'' [''y''] False (fir_db, Some (log_of iteration_first ''pending''))
     = (Inr True,
        fir_db\<lparr>synthesis_results := take 2 (synthesis_results fir_db),
               design_iterations := take 2 (design_iterations fir_db)\<rparr>,
        Some (update_log_status ''now'' (log_of iteration_first ''pending'')))
   \<and> snd (dry_run_rollback iteration_first)
     = [(''synthesis_results'', entry ''synthesis_results'' ''s3''),
        (''design_iterations'', entry ''design_iterations'' ''i3'')]
   \<and> deletes_in_sequence sql_delete iteration_first fir_db
     = Inl (StorageError ''violates foreign key constraint on synthesis_results'')"
proof -
  have recs: "inserted_records (log_of iteration_first ''pending'') = iteration_first"
    by (simp add: log_of_def)
  have st: "rollback_status (log_of iteration_first ''pending'') \<noteq> ''completed''"
    by (simp add: log_of_def)
  note t = rollback_deletion_order
             [where records = iteration_first and del = sql_delete and now = "''now''"
                and log_data = "log_of iteration_first ''pending''" and s = fir_db
                and response = "''y''" and rest = "[]"]
  from t have "rollback_status (log_of iteration_first ''pending'') \<noteq> ''completed''
                 \<and> affirmative ''y'' \<longrightarrow>
        rollback sql_delete ''now'' [''y''] False (fir_db, Some (log_of iteration_first ''pending''))
          = (case deletes_in_sequence sql_delete
                    (planned (inserted_records (log_of iteration_first ''pending''))) fir_db of
               Inl e \<Rightarrow> (Inr False, fir_db, Some (log_of iteration_first ''pending''))
             | Inr s' \<Rightarrow>
                 (Inr True, s', Some (update_log_status ''now'' (log_of iteration_first ''pending''))))"
    by blast
  from this [unfolded recs iteration_first_planned iteration_first_deleted] st affirmative_y
  have a: "rollback sql_delete ''now'' [''y''] False
             (fir_db, Some (log_of iteration_first ''pending''))
     = (Inr True,
        fir_db\<lparr>synthesis_results := take 2 (synthesis_results fir_db),
               design_iterations := take 2 (design_iterations fir_db)\<rparr>,
        Some (update_log_status ''now'' (log_of iteration_first ''pending'')))"
    by simp
  from t have "dry_run_rollback iteration_first
     = (filter (\<lambda>t. t \<in> m_table ` set iteration_first) ROLLBACK_ORDER,
        map (\<lambda>r. (m_table r, r)) (planned iteration_first))"
    by blast
  then have b: "snd (dry_run_rollback iteration_first)
     = [(''synthesis_results'', entry ''synthesis_results'' ''s3''),
        (''design_iterations'', entry ''design_iterations'' ''i3'')]"
    by (simp add: iteration_first_planned entry_def)
  show ?thesis by (intro conjI a b iteration_first_refused)
qed

text \<open>
  The claim as stated fails at a manifest with a kind outside the declared order: the
  kind \<^verbatim>\<open>hls_rules\<close> is present in the manifest and the order lists only
  synthesis_results; the execution issues one deletion.
\<close>

theorem rollback_order_counterexample:
  "''hls_rules'' \<in> m_table ` set with_unknown
   \<and> fst (dry_run_rollback with_unknown) = [''synthesis_results'']
   \<and> execute_rollback trace_delete ''now'' (log_of with_unknown ''pending'') []
       = (True, [(''synthesis_results'', ''s3'')],
          Some (update_log_status ''now'' (log_of with_unknown ''pending'')))"
proof -
  have a: "''hls_rules'' \<in> m_table ` set with_unknown"
    by (simp add: with_unknown_def entry_def)
  have b: "fst (dry_run_rollback with_unknown) = [''synthesis_results'']"
    by (simp add: dry_run_rollback_def determine_order_def with_unknown_def entry_def
        ROLLBACK_ORDER_def Let_def)
  have recs: "inserted_records (log_of with_unknown ''pending'') = with_unknown"
    by (simp add: log_of_def)
  have ord: "determine_order with_unknown = [''synthesis_results'']"
    by (simp add: determine_order_def with_unknown_def entry_def ROLLBACK_ORDER_def)
  have del: "delete_tables trace_delete [''synthesis_results''] with_unknown []
               = Inr [(''synthesis_results'', ''s3'')]"
    by (simp add: with_unknown_def delete_one_def trace_delete_def entry_def)
  have c: "execute_rollback trace_delete ''now'' (log_of with_unknown ''pending'') []
       = (True, [(''synthesis_results'', ''s3'')],
          Some (update_log_status ''now'' (log_of with_unknown ''pending'')))"
    unfolding execute_rollback_def Let_def recs ord del by simp
  show ?thesis by (intro conjI a b c)
qed

section \<open>Table kinds outside the declared order\<close>



lemma planned_declared: "planned (filter declared records) = planned records"
  by (simp add: planned_def)








section \<open>Confirmation prompts\<close>

lemma not_affirmative_empty: "\<not> affirmative []"
  by (simp add: affirmative_def py_strip_def py_lower_def)

lemma not_affirmative_maybe: "\<not> affirmative ''maybe''"
  by code_simp

lemma affirmative_padded: "affirmative '' YES ''"
  by code_simp

text \<open>
  Claim C5. On a manifest whose status is completed the rollback asks first; every
  answer other than y or yes (after stripping white space and lowering the case),
  the empty answer among them, makes it return \<^verbatim>\<open>False\<close> with the store and the log
  file unchanged. The same holds for the prompt before the deletions, on a pending
  manifest and on a completed one after the first answer was affirmative. At the end of
  the input the prompt raises and nothing is changed either.
\<close>

theorem completed_manifest_needs_confirmation:
  "(rollback_status m = ''completed'' \<and> \<not> affirmative response \<longrightarrow>
      rollback del now (response # rest) dry_run (s, Some m) = (Inr False, s, Some m))
   \<and> (rollback_status m \<noteq> ''completed'' \<and> \<not> affirmative response \<longrightarrow>
      rollback del now (response # rest) False (s, Some m) = (Inr False, s, Some m))
   \<and> (rollback_status m = ''completed'' \<and> affirmative again \<and> \<not> affirmative response \<longrightarrow>
      rollback del now (again # response # rest) False (s, Some m) = (Inr False, s, Some m))
   \<and> (rollback_status m = ''completed'' \<longrightarrow>
      rollback del now [] dry_run (s, Some m) = (Inl EOFError, s, Some m))
   \<and> \<not> affirmative []
   \<and> affirmative response
       = (py_lower (py_strip response) = ''y'' \<or> py_lower (py_strip response) = ''yes'')"
  by (simp add: rollback_def not_affirmative_empty) (simp add: affirmative_def)

theorem completed_manifest_needs_confirmation_witness:
  "rollback sql_delete ''now'' [[]] False (fir_db, Some (log_of parent_first ''completed''))
     = (Inr False, fir_db, Some (log_of parent_first ''completed''))
   \<and> rollback sql_delete ''now'' [''maybe''] False (fir_db, Some (log_of parent_first ''pending''))
     = (Inr False, fir_db, Some (log_of parent_first ''pending''))
   \<and> rollback sql_delete ''now'' ['' YES '', ''maybe''] False
        (fir_db, Some (log_of parent_first ''completed''))
     = (Inr False, fir_db, Some (log_of parent_first ''completed''))"
proof -
  have c: "rollback_status (log_of parent_first ''completed'') = ''completed''"
    by (simp add: log_of_def)
  have p: "rollback_status (log_of parent_first ''pending'') \<noteq> ''completed''"
    by (simp add: log_of_def)
  from completed_manifest_needs_confirmation
         [of "log_of parent_first ''completed''" "[]" sql_delete "''now''" "[]" False fir_db]
       c not_affirmative_empty
  have a1: "rollback sql_delete ''now'' [[]] False (fir_db, Some (log_of parent_first ''completed''))
     = (Inr False, fir_db, Some (log_of parent_first ''completed''))"
    by blast
  from completed_manifest_needs_confirmation
         [of "log_of parent_first ''pending''" "''maybe''" sql_delete "''now''" "[]" False fir_db]
       p not_affirmative_maybe
  have a2: "rollback sql_delete ''now'' [''maybe''] False
              (fir_db, Some (log_of parent_first ''pending''))
     = (Inr False, fir_db, Some (log_of parent_first ''pending''))"
    by blast
  from completed_manifest_needs_confirmation
         [of "log_of parent_first ''completed''" "''maybe''" sql_delete "''now''" "[]" False fir_db
             "'' YES ''"]
       c not_affirmative_maybe affirmative_padded
  have a3: "rollback sql_delete ''now'' ['' YES '', ''maybe''] False
        (fir_db, Some (log_of parent_first ''completed''))
     = (Inr False, fir_db, Some (log_of parent_first ''completed''))"
    by blast
  show ?thesis by (intro conjI a1 a2 a3)
qed

section \<open>Rule applications without keywords\<close>

lemma record_rules_missing_keywords:
  "\<exists>ra \<in> set ras. rule_keywords ra = None \<Longrightarrow>
   record_rules fresh rules ptype k ras st = Inl (TypeError ''NoneType object is not iterable'')"
proof (induction ras arbitrary: k st)
  case Nil
  then show ?case by simp
next
  case (Cons ra ras)
  obtain tbl n where st: "st = (tbl, n)" by (cases st)
  show ?case
  proof (cases "rule_keywords ra")
    case None
    then show ?thesis by (simp add: st)
  next
    case (Some kws)
    with Cons.prems have "\<exists>ra \<in> set ras. rule_keywords ra = None" by auto
    from Cons.IH [OF this] Some show ?thesis
      by (simp add: st Let_def split: option.splits)
  qed
qed

text \<open>
  Claim C10. When a rule application of a complete-iteration request has no keyword list,
  the loop over the keywords raises TypeError, the transaction is rolled back and the
  store is what it was before the request: no project, iteration, synthesis result or
  statistics row of the request persists, also when the application carries a valid
  rule code.
\<close>

theorem missing_keywords_abort_request:
  assumes "\<exists>ra \<in> set (rules_applied data). rule_keywords ra = None"
  shows "record_complete_iteration iteration_id result_id fresh now d data
           = (Inl (TypeError ''NoneType object is not iterable''), d)"
  using record_rules_missing_keywords [OF assms]
  by (simp add: record_complete_iteration_def complete_iteration_body_def Let_def)

lemma like_merge: "like_rule kb_rules ''merge'' = Some (hd kb_rules)"
  by code_simp

lemma hd_kb_rules_id: "r_id (hd kb_rules) = ''r1''"
  by (simp add: kb_rules_def)

lemma fresh_ids_0: "fresh_ids 0 = ''e0''"
  by code_simp

lemma merge_recorded:
  "rules_effectiveness (snd (record_complete_iteration ''i1'' ''s1'' fresh_ids 7 kb
       (fir_request [merge_app])))
   = [\<lparr>eff_id = ''e0'', eff_rule_id = ''r1'', eff_project_type = ''fir'',
       times_applied = 1, success_count = 1, avg_ii_improvement = Some 130\<rparr>]"
  by (simp add: record_complete_iteration_def complete_iteration_body_def Let_def
      fir_request_def merge_app_def kb_def like_merge record_rule_effectiveness_def
      fetch_effectiveness_def insert_effectiveness_def fresh_ids_0 hd_kb_rules_id)

theorem missing_keywords_abort_request_witness:
  "(\<exists>ra \<in> set (rules_applied (fir_request [merge_app, keyless_app])).
       rule_keywords ra = None \<and> ra_rule_code ra = Some ''P002'')
   \<and> record_complete_iteration ''i1'' ''s1'' fresh_ids 7 kb (fir_request [merge_app, keyless_app])
       = (Inl (TypeError ''NoneType object is not iterable''), kb)
   \<and> snd (record_complete_iteration ''i1'' ''s1'' fresh_ids 7 kb (fir_request [merge_app])) \<noteq> kb"
proof -
  have b: "snd (record_complete_iteration ''i1'' ''s1'' fresh_ids 7 kb (fir_request [merge_app]))
             \<noteq> kb"
  proof
    assume "snd (record_complete_iteration ''i1'' ''s1'' fresh_ids 7 kb (fir_request [merge_app]))
              = kb"
    then have "rules_effectiveness
        (snd (record_complete_iteration ''i1'' ''s1'' fresh_ids 7 kb (fir_request [merge_app])))
        = rules_effectiveness kb" by simp
    then show False unfolding merge_recorded by (simp add: kb_def)
  qed
  have a: "\<exists>ra \<in> set (rules_applied (fir_request [merge_app, keyless_app])).
       rule_keywords ra = None \<and> ra_rule_code ra = Some ''P002''"
    by (simp add: fir_request_def keyless_app_def)
  then have "\<exists>ra \<in> set (rules_applied (fir_request [merge_app, keyless_app])).
       rule_keywords ra = None" by blast
  from missing_keywords_abort_request [OF this] a b show ?thesis by blast
qed

section \<open>Iteration numbers\<close>












section \<open>Rule matching\<close>

lemma find_Some_set: "find P xs = Some x \<Longrightarrow> x \<in> set xs \<and> P x"
  by (induction xs) (auto split: if_splits)

text \<open>
  The import scripts' matcher is exact: a rule it returns has the given code, or its
  text is the given description up to case; without such a rule it returns nothing.
\<close>

lemma find_matching_rule_exact:
  assumes "find_matching_rule rules code keywords description = Some rule"
  shows "rule \<in> set rules
       \<and> ((truthy code \<and> rule_code rule = code)
          \<or> (truthy description \<and> py_lower (rule_text rule) = py_lower (the description)))"
  using assms
  by (auto simp: find_matching_rule_def split: option.splits if_splits dest: find_Some_set)

lemma find_matching_rule_not_found:
  assumes "\<not> truthy code \<or> (\<forall>r \<in> set rules. rule_code r \<noteq> code)"
    and "\<forall>r \<in> set rules. py_lower (rule_text r) \<noteq> py_lower (the description)"
  shows "find_matching_rule rules code keywords description = None"
  using assms
  by (auto simp: find_matching_rule_def find_None_iff split: option.splits
      dest: find_Some_set)

lemma like_pipeline: "like_rule kb_rules ''pipeline'' = Some (kb_rules ! 2)"
  by code_simp

lemma like_rewind: "like_rule kb_rules ''rewind'' = Some (kb_rules ! 1)"
  by code_simp

lemma exact_rewind:
  "find_matching_rule kb_rules None (Some [''rewind'']) (Some ''rewind'') = None"
  by code_simp

lemma exact_code:
  "map_option r_id (find_matching_rule kb_rules (ra_rule_code rewind_app)
      (rule_keywords rewind_app) (rule_description rewind_app)) = Some ''r2''"
  by code_simp

lemma kb_rules_2_id: "r_id (kb_rules ! 2) = ''r3''"
  by (simp add: kb_rules_def)

text \<open>
  Claim C6. The matcher of the import scripts is exact, the keyword loop of the
  complete-iteration endpoint is not. On the rule table of the example the keyword
  \<^verbatim>\<open>rewind\<close>, which is no rule's full text, resolves to the rule whose text contains
  it, where the exact matcher finds nothing. An application that names the rule P002 by
  its code and by its full text, with the keyword \<^verbatim>\<open>pipeline\<close>, is recorded for
  another rule, the one of highest priority whose text contains the keyword; the exact
  matcher returns P002.
\<close>

theorem keyword_matching_is_fuzzy:
  "match_keywords kb_rules [''rewind''] = Some (kb_rules ! 1)
   \<and> find_matching_rule kb_rules None (Some [''rewind'']) (Some ''rewind'') = None
   \<and> ''rewind'' \<noteq> py_lower (rule_text (kb_rules ! 1))
   \<and> rules_effectiveness (snd (record_complete_iteration ''i1'' ''s1'' fresh_ids 7 kb
        (fir_request [rewind_app])))
      = [\<lparr>eff_id = ''e0'', eff_rule_id = ''r3'', eff_project_type = ''fir'',
          times_applied = 1, success_count = 1, avg_ii_improvement = Some 6\<rparr>]
   \<and> map_option r_id (find_matching_rule kb_rules (ra_rule_code rewind_app)
        (rule_keywords rewind_app) (rule_description rewind_app)) = Some ''r2''"
proof -
  have a: "match_keywords kb_rules [''rewind''] = Some (kb_rules ! 1)"
    by (simp add: like_rewind)
  have c: "''rewind'' \<noteq> py_lower (rule_text (kb_rules ! 1))"
    by (simp add: kb_rules_def py_lower_def)
  have d: "rules_effectiveness (snd (record_complete_iteration ''i1'' ''s1'' fresh_ids 7 kb
        (fir_request [rewind_app])))
      = [\<lparr>eff_id = ''e0'', eff_rule_id = ''r3'', eff_project_type = ''fir'',
          times_applied = 1, success_count = 1, avg_ii_improvement = Some 6\<rparr>]"
    by (simp add: record_complete_iteration_def complete_iteration_body_def Let_def
      fir_request_def rewind_app_def kb_def like_pipeline record_rule_effectiveness_def
      fetch_effectiveness_def insert_effectiveness_def fresh_ids_0 kb_rules_2_id)
  show ?thesis by (intro conjI a exact_rewind c d exact_code)
qed

section \<open>Accumulate-mode aggregation\<close>

lemma find_P001: "find (\<lambda>r. rule_code r = Some ''P001'') kb_rules = Some (hd kb_rules)"
  by (simp add: kb_rules_def)

text \<open>
  Claim C1. On the import script's function and on step 5 of the complete-iteration
  endpoint the claim holds (\<open>accumulate_from_absent\<close> above). The update endpoint
  computes another value: it weighs the old mean by times_applied and adds the
  improvement whether or not the application succeeded. After a failed application with
  improvement 0 and a successful one with improvement 130 on an absent row it holds
  avg_improvement = 65, where the mean over the successes is 130, the value the other
  two paths store; after one failed application with improvement 10 it holds 10, not 0.
\<close>

theorem update_endpoint_averages_all_applications:
  "stats_after (update_all kb [(''e1'', upd False 0), (''e2'', upd True 130)]) ''r1'' ''fir''
     = Some (2, 1, Some 65)
   \<and> stats_of (record_all (rules_effectiveness kb) ''r1'' ''fir''
                 [(''e1'', False, 0), (''e2'', True, 130)]) ''r1'' ''fir''
     = Some (2, 1, Some 130)
   \<and> stats_after (update_all kb [(''e1'', upd False 10)]) ''r1'' ''fir''
     = Some (1, 0, Some 10)"
proof -
  have a: "stats_after (update_all kb [(''e1'', upd False 0), (''e2'', upd True 130)]) ''r1'' ''fir''
     = Some (2, 1, Some 65)"
    by (simp add: stats_after_def kb_def upd_def update_rule_effectiveness_def Let_def stats_of_def
      fetch_effectiveness_def insert_effectiveness_def update_effectiveness_def find_P001
      hd_kb_rules_id)
  have b: "stats_of (record_all (rules_effectiveness kb) ''r1'' ''fir''
                 [(''e1'', False, 0), (''e2'', True, 130)]) ''r1'' ''fir''
     = Some (2, 1, Some 130)"
    by (simp add: kb_def record_rule_effectiveness_def Let_def stats_of_def
      fetch_effectiveness_def insert_effectiveness_def update_effectiveness_def)
  have c: "stats_after (update_all kb [(''e1'', upd False 10)]) ''r1'' ''fir''
     = Some (1, 0, Some 10)"
    by (simp add: stats_after_def kb_def upd_def update_rule_effectiveness_def Let_def stats_of_def
      fetch_effectiveness_def insert_effectiveness_def update_effectiveness_def find_P001
      hd_kb_rules_id)
  show ?thesis by (intro conjI a b c)
qed

section \<open>Overwrite-mode aggregation\<close>

lemma pair_rows_find:
  assumes "pairs_unique tbl"
  shows "pair_rows tbl rid ptype
           = (case fetch_effectiveness tbl rid ptype of None \<Rightarrow> [] | Some x \<Rightarrow> [x])"
  using assms
proof (induction tbl)
  case Nil
  then show ?case by (simp add: pair_rows_def fetch_effectiveness_def)
next
  case (Cons r tbl)
  show ?case
  proof (cases "eff_rule_id r = rid \<and> eff_project_type r = ptype")
    case True
    with Cons.prems have "\<forall>x \<in> set tbl. \<not> (eff_rule_id x = rid \<and> eff_project_type x = ptype)"
      by (auto simp: pairs_unique_def image_iff)
    then have "filter (\<lambda>r. eff_rule_id r = rid \<and> eff_project_type r = ptype) tbl = []"
      by (simp add: filter_empty_conv)
    with True show ?thesis by (simp add: pair_rows_def fetch_effectiveness_def)
  next
    case False
    from Cons.prems have "pairs_unique tbl" by (simp add: pairs_unique_def)
    from Cons.IH [OF this] False show ?thesis
      by (auto simp: pair_rows_def fetch_effectiveness_def)
  qed
qed

lemma pair_rows_update:
  "pair_rows (update_effectiveness tbl eid t s a) rid ptype
     = map (\<lambda>r. if eff_id r = eid
                 then r\<lparr>times_applied := t, success_count := s, avg_ii_improvement := a\<rparr>
                 else r) (pair_rows tbl rid ptype)"
  by (simp add: pair_rows_def update_effectiveness_def filter_map comp_def if_distrib cong: if_cong)

lemma update_keeps_keys:
  "map eff_id (update_effectiveness tbl eid t s a) = map eff_id tbl"
  "map (\<lambda>r. (eff_rule_id r, eff_project_type r)) (update_effectiveness tbl eid t s a)
     = map (\<lambda>r. (eff_rule_id r, eff_project_type r)) tbl"
  by (simp_all add: update_effectiveness_def comp_def if_distrib cong: if_cong)

lemma fetch_Some_pair:
  assumes "fetch_effectiveness tbl rid ptype = Some x"
  shows "x \<in> set tbl \<and> eff_rule_id x = rid \<and> eff_project_type x = ptype"
  using assms unfolding fetch_effectiveness_def by (auto dest: find_Some_set)

lemma other_rows_update:
  assumes "distinct (map eff_id tbl)" and "fetch_effectiveness tbl rid ptype = Some x"
  shows "other_rows (update_effectiveness tbl (eff_id x) t s a) rid ptype = other_rows tbl rid ptype"
proof -
  from fetch_Some_pair [OF assms(2)]
  have x: "x \<in> set tbl" "eff_rule_id x = rid" "eff_project_type x = ptype" by simp_all
  have "other_rows (update_effectiveness tbl (eff_id x) t s a) rid ptype
          = map (\<lambda>r. if eff_id r = eff_id x
                 then r\<lparr>times_applied := t, success_count := s, avg_ii_improvement := a\<rparr>
                 else r) (other_rows tbl rid ptype)"
    by (simp add: other_rows_def update_effectiveness_def filter_map comp_def if_distrib
        cong: if_cong)
  also have "\<dots> = other_rows tbl rid ptype"
  proof (rule map_idI)
    fix r assume "r \<in> set (other_rows tbl rid ptype)"
    then have r: "r \<in> set tbl" "\<not> (eff_rule_id r = rid \<and> eff_project_type r = ptype)"
      by (simp_all add: other_rows_def)
    have "eff_id r \<noteq> eff_id x"
    proof
      assume "eff_id r = eff_id x"
      with assms(1) r(1) x(1) have "r = x"
        by (simp add: distinct_map inj_on_def)
      with r(2) x(2,3) show False by simp
    qed
    then show "(if eff_id r = eff_id x
                 then r\<lparr>times_applied := t, success_count := s, avg_ii_improvement := a\<rparr>
                 else r) = r" by simp
  qed
  finally show ?thesis .
qed

lemma overwrite_existing:
  assumes "fetch_effectiveness tbl rid ptype = Some existing"
  shows "record_rule_effectiveness_overwrite fresh tbl rid ptype success imp
           = (update_effectiveness tbl (eff_id existing) 1 (if success then 1 else 0)
                (Some (if success then imp else 0)),
              eff_id existing, False)"
  using assms by (simp add: record_rule_effectiveness_overwrite_def)

lemma overwrite_absent:
  assumes "fetch_effectiveness tbl rid ptype = None"
  shows "record_rule_effectiveness_overwrite fresh tbl rid ptype success imp
           = (tbl @ [\<lparr>eff_id = fresh, eff_rule_id = rid, eff_project_type = ptype,
                       times_applied = 1, success_count = (if success then 1 else 0),
                       avg_ii_improvement = Some (if success then imp else 0)\<rparr>],
              fresh, True)"
  using assms by (simp add: record_rule_effectiveness_overwrite_def insert_effectiveness_def)

lemma overwrite_pair_rows:
  assumes "pairs_unique tbl"
  shows "map row_stats
           (pair_rows (fst (record_rule_effectiveness_overwrite fresh tbl rid ptype success imp))
              rid ptype)
         = [(1, if success then 1 else 0, Some (if success then imp else 0))]
       \<and> pairs_unique (fst (record_rule_effectiveness_overwrite fresh tbl rid ptype success imp))"
proof (cases "fetch_effectiveness tbl rid ptype")
  case None
  then have no: "\<forall>x \<in> set tbl. \<not> (eff_rule_id x = rid \<and> eff_project_type x = ptype)"
    by (simp add: fetch_effectiveness_def find_None_iff)
  then have "pair_rows tbl rid ptype = []"
    by (simp add: pair_rows_def filter_empty_conv)
  moreover from no assms
  have "pairs_unique (tbl @ [\<lparr>eff_id = fresh, eff_rule_id = rid, eff_project_type = ptype,
                       times_applied = 1, success_count = (if success then 1 else 0),
                       avg_ii_improvement = Some (if success then imp else 0)\<rparr>])"
    by (auto simp: pairs_unique_def)
  ultimately show ?thesis
    unfolding overwrite_absent [OF None] by (simp add: pair_rows_def row_stats_def)
next
  case (Some existing)
  from pair_rows_find [OF assms, of rid ptype] Some
  have "pair_rows tbl rid ptype = [existing]" by simp
  then have "map row_stats
           (pair_rows (update_effectiveness tbl (eff_id existing) 1 (if success then 1 else 0)
                         (Some (if success then imp else 0))) rid ptype)
         = [(1, if success then 1 else 0, Some (if success then imp else 0))]"
    by (simp add: pair_rows_update row_stats_def)
  moreover have "pairs_unique (update_effectiveness tbl (eff_id existing) 1
                   (if success then 1 else 0) (Some (if success then imp else 0)))"
    using assms by (simp add: pairs_unique_def update_keeps_keys)
  ultimately show ?thesis unfolding overwrite_existing [OF Some] by simp
qed

text \<open>
  Claim C7. One overwrite-mode application with outcome (success, improvement) leaves the
  row of the (rule, context) pair at times_applied = 1, success_count = 1 or 0 and
  avg_improvement = improvement or 0, whatever the table held before. In a table with
  at most one row for each pair, the pair then has exactly one row, with these values.
  An existing row of the pair is the row that is set: no row is added, the identifiers
  and the pairs of all rows stay, and the call returns the row's identifier. Without
  such a row one row with the fresh identifier is appended. The rows of the other pairs
  are untouched when the identifiers are distinct. Two applications in sequence end in
  the state of the second outcome alone.
\<close>

theorem overwrite_last_write_wins:
  "stats_of (fst (record_rule_effectiveness_overwrite fresh tbl rid ptype success imp)) rid ptype
     = Some (1, if success then 1 else 0, Some (if success then imp else 0))
   \<and> (pairs_unique tbl \<longrightarrow>
        map row_stats
          (pair_rows (fst (record_rule_effectiveness_overwrite fresh tbl rid ptype success imp))
             rid ptype)
        = [(1, if success then 1 else 0, Some (if success then imp else 0))]
        \<and> pairs_unique (fst (record_rule_effectiveness_overwrite fresh tbl rid ptype success imp)))
   \<and> (\<forall>existing. fetch_effectiveness tbl rid ptype = Some existing \<longrightarrow>
        snd (record_rule_effectiveness_overwrite fresh tbl rid ptype success imp)
          = (eff_id existing, False)
        \<and> map eff_id (fst (record_rule_effectiveness_overwrite fresh tbl rid ptype success imp))
            = map eff_id tbl
        \<and> map (\<lambda>r. (eff_rule_id r, eff_project_type r))
              (fst (record_rule_effectiveness_overwrite fresh tbl rid ptype success imp))
            = map (\<lambda>r. (eff_rule_id r, eff_project_type r)) tbl
        \<and> (\<forall>r \<in> set (fst (record_rule_effectiveness_overwrite fresh tbl rid ptype success imp)).
              eff_id r = eff_id existing \<longrightarrow>
              row_stats r = (1, if success then 1 else 0, Some (if success then imp else 0))))
   \<and> (fetch_effectiveness tbl rid ptype = None \<longrightarrow>
        record_rule_effectiveness_overwrite fresh tbl rid ptype success imp
          = (tbl @ [\<lparr>eff_id = fresh, eff_rule_id = rid, eff_project_type = ptype,
                      times_applied = 1, success_count = (if success then 1 else 0),
                      avg_ii_improvement = Some (if success then imp else 0)\<rparr>],
             fresh, True))
   \<and> (distinct (map eff_id tbl) \<longrightarrow>
        other_rows (fst (record_rule_effectiveness_overwrite fresh tbl rid ptype success imp))
          rid ptype
        = other_rows tbl rid ptype)
   \<and> stats_of (fst (record_rule_effectiveness_overwrite second_id
        (fst (record_rule_effectiveness_overwrite first_id tbl rid ptype first_ok first_imp))
        rid ptype second_ok second_imp)) rid ptype
     = Some (1, if second_ok then 1 else 0, Some (if second_ok then second_imp else 0))
   \<and> (pairs_unique tbl \<longrightarrow>
        map row_stats
          (pair_rows (fst (record_rule_effectiveness_overwrite second_id
             (fst (record_rule_effectiveness_overwrite first_id tbl rid ptype first_ok first_imp))
             rid ptype second_ok second_imp)) rid ptype)
        = [(1, if second_ok then 1 else 0, Some (if second_ok then second_imp else 0))])"
proof -
  have b: "pairs_unique tbl \<longrightarrow>
        map row_stats
          (pair_rows (fst (record_rule_effectiveness_overwrite fresh tbl rid ptype success imp))
             rid ptype)
        = [(1, if success then 1 else 0, Some (if success then imp else 0))]
        \<and> pairs_unique (fst (record_rule_effectiveness_overwrite fresh tbl rid ptype success imp))"
    using overwrite_pair_rows by blast
  have c: "\<forall>existing. fetch_effectiveness tbl rid ptype = Some existing \<longrightarrow>
        snd (record_rule_effectiveness_overwrite fresh tbl rid ptype success imp)
          = (eff_id existing, False)
        \<and> map eff_id (fst (record_rule_effectiveness_overwrite fresh tbl rid ptype success imp))
            = map eff_id tbl
        \<and> map (\<lambda>r. (eff_rule_id r, eff_project_type r))
              (fst (record_rule_effectiveness_overwrite fresh tbl rid ptype success imp))
            = map (\<lambda>r. (eff_rule_id r, eff_project_type r)) tbl
        \<and> (\<forall>r \<in> set (fst (record_rule_effectiveness_overwrite fresh tbl rid ptype success imp)).
              eff_id r = eff_id existing \<longrightarrow>
              row_stats r = (1, if success then 1 else 0, Some (if success then imp else 0)))"
  proof (intro allI impI)
    fix existing assume ex: "fetch_effectiveness tbl rid ptype = Some existing"
    show "snd (record_rule_effectiveness_overwrite fresh tbl rid ptype success imp)
          = (eff_id existing, False)
        \<and> map eff_id (fst (record_rule_effectiveness_overwrite fresh tbl rid ptype success imp))
            = map eff_id tbl
        \<and> map (\<lambda>r. (eff_rule_id r, eff_project_type r))
              (fst (record_rule_effectiveness_overwrite fresh tbl rid ptype success imp))
            = map (\<lambda>r. (eff_rule_id r, eff_project_type r)) tbl
        \<and> (\<forall>r \<in> set (fst (record_rule_effectiveness_overwrite fresh tbl rid ptype success imp)).
              eff_id r = eff_id existing \<longrightarrow>
              row_stats r = (1, if success then 1 else 0, Some (if success then imp else 0)))"
      unfolding overwrite_existing [OF ex]
      by (auto simp: update_keeps_keys) (auto simp: update_effectiveness_def row_stats_def)
  qed
  have d: "fetch_effectiveness tbl rid ptype = None \<longrightarrow>
        record_rule_effectiveness_overwrite fresh tbl rid ptype success imp
          = (tbl @ [\<lparr>eff_id = fresh, eff_rule_id = rid, eff_project_type = ptype,
                      times_applied = 1, success_count = (if success then 1 else 0),
                      avg_ii_improvement = Some (if success then imp else 0)\<rparr>],
             fresh, True)"
    using overwrite_absent by blast
  have e: "distinct (map eff_id tbl) \<longrightarrow>
        other_rows (fst (record_rule_effectiveness_overwrite fresh tbl rid ptype success imp))
          rid ptype
        = other_rows tbl rid ptype"
  proof (cases "fetch_effectiveness tbl rid ptype")
    case None
    show ?thesis unfolding overwrite_absent [OF None] by (simp add: other_rows_def)
  next
    case (Some existing)
    show ?thesis unfolding overwrite_existing [OF Some]
      by (simp add: other_rows_update [OF _ Some])
  qed
  have g: "pairs_unique tbl \<longrightarrow>
        map row_stats
          (pair_rows (fst (record_rule_effectiveness_overwrite second_id
             (fst (record_rule_effectiveness_overwrite first_id tbl rid ptype first_ok first_imp))
             rid ptype second_ok second_imp)) rid ptype)
        = [(1, if second_ok then 1 else 0, Some (if second_ok then second_imp else 0))]"
  proof
    assume "pairs_unique tbl"
    then have "pairs_unique (fst (record_rule_effectiveness_overwrite first_id tbl rid ptype first_ok first_imp))"
      using overwrite_pair_rows by blast
    then show "map row_stats
          (pair_rows (fst (record_rule_effectiveness_overwrite second_id
             (fst (record_rule_effectiveness_overwrite first_id tbl rid ptype first_ok first_imp))
             rid ptype second_ok second_imp)) rid ptype)
        = [(1, if second_ok then 1 else 0, Some (if second_ok then second_imp else 0))]"
      using overwrite_pair_rows by blast
  qed
  show ?thesis
    by (intro conjI overwrite_stats b c d e g)
qed

lemma busy_stats_wellformed: "pairs_unique busy_stats \<and> distinct (map eff_id busy_stats)"
  by (simp add: pairs_unique_def busy_stats_def)

theorem overwrite_last_write_wins_witness:
  "fst (record_rule_effectiveness_overwrite ''e9'' busy_stats ''r1'' ''fir'' False 25)
     = [\<lparr>eff_id = ''e1'', eff_rule_id = ''r1'', eff_project_type = ''fir'',
         times_applied = 1, success_count = 0, avg_ii_improvement = Some 0\<rparr>,
        \<lparr>eff_id = ''e2'', eff_rule_id = ''r2'', eff_project_type = ''fir'',
         times_applied = 2, success_count = 2, avg_ii_improvement = Some 6\<rparr>]
   \<and> map row_stats
        (pair_rows (fst (record_rule_effectiveness_overwrite ''e9'' busy_stats ''r1'' ''fir'' False 25))
           ''r1'' ''fir'')
     = [(1, 0, Some 0)]
   \<and> other_rows (fst (record_rule_effectiveness_overwrite ''e9'' busy_stats ''r1'' ''fir'' False 25))
        ''r1'' ''fir''
     = other_rows busy_stats ''r1'' ''fir''
   \<and> map row_stats
        (pair_rows (fst (record_rule_effectiveness_overwrite ''e8''
           (fst (record_rule_effectiveness_overwrite ''e9'' busy_stats ''r1'' ''fir'' False 25))
           ''r1'' ''fir'' True 130)) ''r1'' ''fir'')
     = [(1, 1, Some 130)]"
proof -
  note t = overwrite_last_write_wins
             [where tbl = busy_stats and rid = "''r1''" and ptype = "''fir''" and fresh = "''e9''"
                and success = False and imp = 25 and first_id = "''e9''" and first_ok = False and first_imp = 25
                and second_id = "''e8''" and second_ok = True and second_imp = 130]
  have a: "fst (record_rule_effectiveness_overwrite ''e9'' busy_stats ''r1'' ''fir'' False 25)
     = [\<lparr>eff_id = ''e1'', eff_rule_id = ''r1'', eff_project_type = ''fir'',
         times_applied = 1, success_count = 0, avg_ii_improvement = Some 0\<rparr>,
        \<lparr>eff_id = ''e2'', eff_rule_id = ''r2'', eff_project_type = ''fir'',
         times_applied = 2, success_count = 2, avg_ii_improvement = Some 6\<rparr>]"
    by (simp add: record_rule_effectiveness_overwrite_def fetch_effectiveness_def busy_stats_def
        update_effectiveness_def)
  from t busy_stats_wellformed
  have b: "map row_stats
        (pair_rows (fst (record_rule_effectiveness_overwrite ''e9'' busy_stats ''r1'' ''fir'' False 25))
           ''r1'' ''fir'')
     = [(1, if False then 1 else 0, Some (if False then 25 else 0))]"
    by blast
  from t busy_stats_wellformed
  have c: "other_rows (fst (record_rule_effectiveness_overwrite ''e9'' busy_stats ''r1'' ''fir'' False 25))
        ''r1'' ''fir''
     = other_rows busy_stats ''r1'' ''fir''"
    by blast
  from t busy_stats_wellformed
  have d: "map row_stats
        (pair_rows (fst (record_rule_effectiveness_overwrite ''e8''
           (fst (record_rule_effectiveness_overwrite ''e9'' busy_stats ''r1'' ''fir'' False 25))
           ''r1'' ''fir'' True 130)) ''r1'' ''fir'')
     = [(1, if True then 1 else 0, Some (if True then 130 else 0))]"
    by blast
  from a b c d show ?thesis by simp
qed

section \<open>The manifest of one iteration\<close>

lemma iteration_records_kinds:
  "map m_id (filter (\<lambda>r. m_table r = ''design_iterations'') (iteration_records d it))
     = [Some (di_id it)]"
  "map m_id (filter (\<lambda>r. m_table r = ''synthesis_results'') (iteration_records d it))
     = map (\<lambda>s. Some (sr_id s)) (filter (\<lambda>s. sr_iteration_id s = di_id it) (synthesis_results d))"
  "filter (\<lambda>r. m_table r = ''projects'') (iteration_records d it) = []"
  "filter (\<lambda>r. m_table r = ''rules_effectiveness'') (iteration_records d it) = []"
  by (simp_all add: iteration_records_def filter_map comp_def)

lemma iteration_records_tables:
  "r \<in> set (iteration_records d it) \<Longrightarrow>
   (m_table r = ''design_iterations'' \<or> m_table r = ''synthesis_results'') \<and> m_id r \<noteq> None"
  by (auto simp: iteration_records_def)

lemma concat_iteration_records:
  "map m_id (filter (\<lambda>r. m_table r = ''design_iterations'')
     (concat (map (iteration_records d) its))) = map (\<lambda>r. Some (di_id r)) its"
  "map m_id (filter (\<lambda>r. m_table r = ''synthesis_results'')
     (concat (map (iteration_records d) its)))
   = map (\<lambda>s. Some (sr_id s))
       (concat (map (\<lambda>it. filter (\<lambda>s. sr_iteration_id s = di_id it) (synthesis_results d)) its))"
  "filter (\<lambda>r. m_table r = ''projects'') (concat (map (iteration_records d) its)) = []"
  "filter (\<lambda>r. m_table r = ''rules_effectiveness'') (concat (map (iteration_records d) its)) = []"
  by (induction its) (simp_all add: iteration_records_kinds)

lemma logger_records_scope:
  assumes "logger_records d name iteration = Some records"
  shows "\<exists>project. latest_project (filter (\<lambda>p. p_name p = name) (projects d)) = Some project
     \<and> map m_id (filter (\<lambda>r. m_table r = ''projects'') records) = [Some (p_id project)]
     \<and> map m_id (filter (\<lambda>r. m_table r = ''design_iterations'') records)
         = map (\<lambda>r. Some (di_id r)) (logged_iterations d (p_id project) iteration)
     \<and> map m_id (filter (\<lambda>r. m_table r = ''synthesis_results'') records)
         = map (\<lambda>s. Some (sr_id s))
             (concat (map (\<lambda>it. filter (\<lambda>s. sr_iteration_id s = di_id it) (synthesis_results d))
                (logged_iterations d (p_id project) iteration)))
     \<and> map m_id (filter (\<lambda>r. m_table r = ''rules_effectiveness'') records)
         = map (\<lambda>r. Some (eff_id r))
             (filter (\<lambda>r. eff_project_type r = p_type project) (rules_effectiveness d))"
proof -
  from assms obtain project where
    p: "latest_project (filter (\<lambda>p. p_name p = name) (projects d)) = Some project"
    by (auto simp: logger_records_def split: option.splits)
  let ?its = "logged_iterations d (p_id project) iteration"
  from assms p have records:
    "records = \<lparr>m_table = ''projects'', m_id = Some (p_id project),
                 m_note = ''Project: '' @ p_name project\<rparr>
               # concat (map (iteration_records d) ?its)
               @ map (\<lambda>r. \<lparr>m_table = ''rules_effectiveness'', m_id = Some (eff_id r),
                             m_note = ''Rule effectiveness for '' @ p_type project\<rparr>)
                   (filter (\<lambda>r. eff_project_type r = p_type project) (rules_effectiveness d))"
    by (simp add: logger_records_def Let_def split: if_splits)
  have a: "map m_id (filter (\<lambda>r. m_table r = ''projects'') records) = [Some (p_id project)]"
    unfolding records by (simp add: concat_iteration_records filter_map comp_def)
  have b: "map m_id (filter (\<lambda>r. m_table r = ''design_iterations'') records)
         = map (\<lambda>r. Some (di_id r)) ?its"
    unfolding records by (simp add: concat_iteration_records filter_map comp_def)
  have c: "map m_id (filter (\<lambda>r. m_table r = ''synthesis_results'') records)
         = map (\<lambda>s. Some (sr_id s))
             (concat (map (\<lambda>it. filter (\<lambda>s. sr_iteration_id s = di_id it) (synthesis_results d))
                ?its))"
    unfolding records by (simp add: concat_iteration_records filter_map comp_def)
  have e: "map m_id (filter (\<lambda>r. m_table r = ''rules_effectiveness'') records)
         = map (\<lambda>r. Some (eff_id r))
             (filter (\<lambda>r. eff_project_type r = p_type project) (rules_effectiveness d))"
    unfolding records by (simp add: concat_iteration_records filter_map comp_def)
  show ?thesis by (intro exI [of _ project] conjI p a b c e)
qed

lemma logger_records_tables:
  assumes "logger_records d name iteration = Some records" and "r \<in> set records"
  shows "m_table r \<in> set [''projects'', ''design_iterations'', ''synthesis_results'',
                           ''rules_effectiveness'']
       \<and> m_id r \<noteq> None"
  using assms
  by (auto simp: logger_records_def Let_def split: option.splits if_splits
      dest: iteration_records_tables)

lemma generate_log_file_records:
  assumes "generate_log_file glob force stdin stamp isotime pname ptype iteration records notes
             = Inr (Some (file, m))"
  shows "inserted_records m = records \<and> rollback_status m = ''pending''"
  using assms
  by (auto simp: generate_log_file_def Let_def split: if_splits list.splits)

lemma logger_by_project_records:
  assumes "logger_by_project glob force stdin stamp isotime d name iteration
             = Inr (Some (file, m))"
  shows "logger_records d name iteration = Some (inserted_records m)
       \<and> rollback_status m = ''pending''"
  using assms
  by (auto simp: logger_by_project_def split: option.splits dest: generate_log_file_records)

lemma plan_of_kinds:
  assumes "\<forall>r \<in> set records.
             m_table r \<in> set [''projects'', ''design_iterations'', ''synthesis_results'',
                               ''rules_effectiveness'']"
  shows "map (\<lambda>x. (fst x, m_id (snd x))) (snd (dry_run_rollback records))
     = map (\<lambda>i. (''synthesis_results'', i))
         (map m_id (filter (\<lambda>r. m_table r = ''synthesis_results'') records))
     @ map (\<lambda>i. (''rules_effectiveness'', i))
         (map m_id (filter (\<lambda>r. m_table r = ''rules_effectiveness'') records))
     @ map (\<lambda>i. (''design_iterations'', i))
         (map m_id (filter (\<lambda>r. m_table r = ''design_iterations'') records))
     @ map (\<lambda>i. (''projects'', i))
         (map m_id (filter (\<lambda>r. m_table r = ''projects'') records))"
proof -
  have "filter (\<lambda>r. m_table r = ''design_patterns'') records = []"
    using assms by (auto simp: filter_empty_conv)
  then show ?thesis
    by (simp add: plan_blocks ROLLBACK_ORDER_def comp_def)
qed

lemma trace_of_plan:
  assumes "\<forall>r \<in> set (inserted_records m). m_id r \<noteq> None"
  shows "execute_rollback trace_delete now m issued
     = (True,
        issued @ map (\<lambda>p. (fst p, the (snd p)))
                   (map (\<lambda>x. (fst x, m_id (snd x))) (snd (dry_run_rollback (inserted_records m)))),
        Some (update_log_status now m))"
proof -
  from assms have "\<forall>r \<in> set (planned (inserted_records m)). m_id r \<noteq> None"
    by (simp add: planned_set)
  from trace_sequence [OF this] show ?thesis
    by (simp add: execute_rollback_planned preview_is_planned comp_def)
qed

text \<open>
  Claim C8, as amended. A manifest that \<^verbatim>\<open>logger_by_project\<close> writes lists the project
  row, the design_iterations rows it read, the synthesis_results rows of exactly those
  iterations and every rules_effectiveness row of the project's type, and nothing else;
  its status is pending. With an iteration number other than 0 the iterations read are
  those of the project with that number, so no row of another iteration is listed; with
  no number, or 0, they are all iterations of the project. The project row is always
  listed. Rolling the manifest back issues the deletions of the synthesis results, of
  the statistics rows, of the iterations and, last, of the project.
\<close>

theorem iteration_scoped_manifest:
  assumes "logger_by_project glob force stdin stamp isotime d name iteration
             = Inr (Some (file, m))"
  shows "\<exists>project its synths stats.
       latest_project (filter (\<lambda>p. p_name p = name) (projects d)) = Some project
     \<and> its = logged_iterations d (p_id project) iteration
     \<and> synths = concat (map (\<lambda>it. filter (\<lambda>s. sr_iteration_id s = di_id it)
                                      (synthesis_results d)) its)
     \<and> stats = filter (\<lambda>r. eff_project_type r = p_type project) (rules_effectiveness d)
     \<and> (\<forall>n. iteration = Some n \<and> n \<noteq> 0 \<longrightarrow>
           its = filter (\<lambda>r. di_project_id r = p_id project \<and> iteration_number r = n)
                   (design_iterations d))
     \<and> (iteration = None \<or> iteration = Some 0 \<longrightarrow>
           mset its = mset (filter (\<lambda>r. di_project_id r = p_id project) (design_iterations d)))
     \<and> map m_id (filter (\<lambda>r. m_table r = ''projects'') (inserted_records m))
         = [Some (p_id project)]
     \<and> map m_id (filter (\<lambda>r. m_table r = ''design_iterations'') (inserted_records m))
         = map (\<lambda>r. Some (di_id r)) its
     \<and> map m_id (filter (\<lambda>r. m_table r = ''synthesis_results'') (inserted_records m))
         = map (\<lambda>s. Some (sr_id s)) synths
     \<and> map m_id (filter (\<lambda>r. m_table r = ''rules_effectiveness'') (inserted_records m))
         = map (\<lambda>r. Some (eff_id r)) stats
     \<and> (\<forall>r \<in> set (inserted_records m).
           m_table r \<in> set [''projects'', ''design_iterations'', ''synthesis_results'',
                             ''rules_effectiveness''])
     \<and> rollback_status m = ''pending''
     \<and> map (\<lambda>x. (fst x, m_id (snd x))) (snd (dry_run_rollback (inserted_records m)))
         = map (\<lambda>s. (''synthesis_results'', Some (sr_id s))) synths
           @ map (\<lambda>r. (''rules_effectiveness'', Some (eff_id r))) stats
           @ map (\<lambda>r. (''design_iterations'', Some (di_id r))) its
           @ [(''projects'', Some (p_id project))]
     \<and> execute_rollback trace_delete now m issued
         = (True,
            issued @ map (\<lambda>s. (''synthesis_results'', sr_id s)) synths
                   @ map (\<lambda>r. (''rules_effectiveness'', eff_id r)) stats
                   @ map (\<lambda>r. (''design_iterations'', di_id r)) its
                   @ [(''projects'', p_id project)],
            Some (update_log_status now m))
     \<and> (affirmative response \<longrightarrow>
          rollback trace_delete now (response # rest) False (issued, Some m)
            = (Inr True,
               issued @ map (\<lambda>s. (''synthesis_results'', sr_id s)) synths
                      @ map (\<lambda>r. (''rules_effectiveness'', eff_id r)) stats
                      @ map (\<lambda>r. (''design_iterations'', di_id r)) its
                      @ [(''projects'', p_id project)],
               Some (update_log_status now m)))"
proof -
  from logger_by_project_records [OF assms]
  have recs: "logger_records d name iteration = Some (inserted_records m)"
    and st: "rollback_status m = ''pending''" by blast+
  from logger_records_scope [OF recs] obtain project where
    p: "latest_project (filter (\<lambda>p. p_name p = name) (projects d)) = Some project"
    and a: "map m_id (filter (\<lambda>r. m_table r = ''projects'') (inserted_records m))
         = [Some (p_id project)]"
    and b: "map m_id (filter (\<lambda>r. m_table r = ''design_iterations'') (inserted_records m))
         = map (\<lambda>r. Some (di_id r)) (logged_iterations d (p_id project) iteration)"
    and c: "map m_id (filter (\<lambda>r. m_table r = ''synthesis_results'') (inserted_records m))
         = map (\<lambda>s. Some (sr_id s))
             (concat (map (\<lambda>it. filter (\<lambda>s. sr_iteration_id s = di_id it) (synthesis_results d))
                (logged_iterations d (p_id project) iteration)))"
    and e: "map m_id (filter (\<lambda>r. m_table r = ''rules_effectiveness'') (inserted_records m))
         = map (\<lambda>r. Some (eff_id r))
             (filter (\<lambda>r. eff_project_type r = p_type project) (rules_effectiveness d))"
    by (elim exE conjE) (rule that, assumption+)
  let ?its = "logged_iterations d (p_id project) iteration"
  let ?synths = "concat (map (\<lambda>it. filter (\<lambda>s. sr_iteration_id s = di_id it)
                                      (synthesis_results d)) ?its)"
  let ?stats = "filter (\<lambda>r. eff_project_type r = p_type project) (rules_effectiveness d)"
  have one: "\<forall>n. iteration = Some n \<and> n \<noteq> 0 \<longrightarrow>
           ?its = filter (\<lambda>r. di_project_id r = p_id project \<and> iteration_number r = n)
                   (design_iterations d)"
    by (simp add: logged_iterations_def)
  have every: "iteration = None \<or> iteration = Some 0 \<longrightarrow>
           mset ?its = mset (filter (\<lambda>r. di_project_id r = p_id project) (design_iterations d))"
    by (auto simp: logged_iterations_def)
  have t: "\<forall>r \<in> set (inserted_records m).
           m_table r \<in> set [''projects'', ''design_iterations'', ''synthesis_results'',
                             ''rules_effectiveness'']"
    using logger_records_tables [OF recs] by blast
  have ids: "\<forall>r \<in> set (inserted_records m). m_id r \<noteq> None"
    using logger_records_tables [OF recs] by blast
  have plan: "map (\<lambda>x. (fst x, m_id (snd x))) (snd (dry_run_rollback (inserted_records m)))
         = map (\<lambda>s. (''synthesis_results'', Some (sr_id s))) ?synths
           @ map (\<lambda>r. (''rules_effectiveness'', Some (eff_id r))) ?stats
           @ map (\<lambda>r. (''design_iterations'', Some (di_id r))) ?its
           @ [(''projects'', Some (p_id project))]"
    unfolding plan_of_kinds [OF t] a b c e by (simp add: comp_def)
  have tr: "execute_rollback trace_delete now m issued
         = (True,
            issued @ map (\<lambda>s. (''synthesis_results'', sr_id s)) ?synths
                   @ map (\<lambda>r. (''rules_effectiveness'', eff_id r)) ?stats
                   @ map (\<lambda>r. (''design_iterations'', di_id r)) ?its
                   @ [(''projects'', p_id project)],
            Some (update_log_status now m))"
    unfolding trace_of_plan [OF ids] plan by (simp add: comp_def)
  have rb: "affirmative response \<longrightarrow>
          rollback trace_delete now (response # rest) False (issued, Some m)
            = (Inr True,
               issued @ map (\<lambda>s. (''synthesis_results'', sr_id s)) ?synths
                      @ map (\<lambda>r. (''rules_effectiveness'', eff_id r)) ?stats
                      @ map (\<lambda>r. (''design_iterations'', di_id r)) ?its
                      @ [(''projects'', p_id project)],
               Some (update_log_status now m))"
    using st by (simp add: rollback_def tr)
  show ?thesis
    by (intro exI [of _ project] exI [of _ ?its] exI [of _ ?synths] exI [of _ ?stats]
        conjI p refl one every a b c e t st plan tr rb)
qed

lemma fir_iter3_logged:
  "logger_by_project no_logs False [] ''20251012_101500'' ''2025-10-12T10:15:00'' fir_db
       ''FIR128'' (Some 3)
     = Inr (Some (''rollback_FIR128_iter3_20251012_101500.yaml'',
                  \<lparr>m_project = ''FIR128'', m_iteration = Some 3, m_project_type = ''fir'',
                   m_timestamp = ''2025-10-12T10:15:00'',
                   m_notes = ''Auto-generated log for FIR128'',
                   inserted_records = iter3_log, rollback_status = ''pending'',
                   rollback_timestamp = None\<rparr>))"
  by code_simp

lemma fir_latest_project:
  "latest_project (filter (\<lambda>p. p_name p = ''FIR128'') (projects fir_db)) = Some (hd (projects fir_db))"
  by (simp add: fir_db_def)

theorem iteration_scoped_manifest_witness:
  "map m_id (filter (\<lambda>r. m_table r = ''projects'') iter3_log) = [Some ''p1'']
   \<and> map m_id (filter (\<lambda>r. m_table r = ''design_iterations'') iter3_log) = [Some ''i3'']
   \<and> map m_id (filter (\<lambda>r. m_table r = ''synthesis_results'') iter3_log) = [Some ''s3'']
   \<and> map m_id (filter (\<lambda>r. m_table r = ''rules_effectiveness'') iter3_log) = [Some ''e1'']
   \<and> fst (snd (execute_rollback trace_delete ''now'' (log_of iter3_log ''pending'') []))
       = [(''synthesis_results'', ''s3''), (''rules_effectiveness'', ''e1''),
          (''design_iterations'', ''i3''), (''projects'', ''p1'')]"
proof -
  from iteration_scoped_manifest [OF fir_iter3_logged, unfolded manifest.select_convs,
         where now = "''now''" and issued = "[]" and response = "''y''" and rest = "[]"]
  obtain project its synths stats where
    p: "latest_project (filter (\<lambda>p. p_name p = ''FIR128'') (projects fir_db)) = Some project"
    and its: "its = logged_iterations fir_db (p_id project) (Some 3)"
    and synths: "synths = concat (map (\<lambda>it. filter (\<lambda>s. sr_iteration_id s = di_id it)
                                      (synthesis_results fir_db)) its)"
    and stats: "stats = filter (\<lambda>r. eff_project_type r = p_type project)
                          (rules_effectiveness fir_db)"
    and a: "map m_id (filter (\<lambda>r. m_table r = ''projects'') iter3_log) = [Some (p_id project)]"
    and b: "map m_id (filter (\<lambda>r. m_table r = ''design_iterations'') iter3_log)
         = map (\<lambda>r. Some (di_id r)) its"
    and c: "map m_id (filter (\<lambda>r. m_table r = ''synthesis_results'') iter3_log)
         = map (\<lambda>s. Some (sr_id s)) synths"
    and e: "map m_id (filter (\<lambda>r. m_table r = ''rules_effectiveness'') iter3_log)
         = map (\<lambda>r. Some (eff_id r)) stats"
    by (elim exE conjE) (rule that, assumption+)
  from p have project: "project = hd (projects fir_db)"
    by (simp only: fir_latest_project option.inject)
  have its': "its = [fir_iteration ''i3'' 3]"
    unfolding its project by (simp add: logged_iterations_def fir_db_def fir_iteration_def)
  have synths': "map sr_id synths = [''s3'']"
    unfolding synths its' by (simp add: fir_db_def fir_iteration_def)
  have stats': "map eff_id stats = [''e1'']"
    unfolding stats project by (simp add: fir_db_def)
  have a': "map m_id (filter (\<lambda>r. m_table r = ''projects'') iter3_log) = [Some ''p1'']"
    unfolding a project by (simp add: fir_db_def)
  have b': "map m_id (filter (\<lambda>r. m_table r = ''design_iterations'') iter3_log) = [Some ''i3'']"
    unfolding b its' by (simp add: fir_iteration_def)
  have c': "map m_id (filter (\<lambda>r. m_table r = ''synthesis_results'') iter3_log) = [Some ''s3'']"
    using c synths' by (auto simp: map_eq_Cons_conv)
  have e': "map m_id (filter (\<lambda>r. m_table r = ''rules_effectiveness'') iter3_log) = [Some ''e1'']"
    using e stats' by (auto simp: map_eq_Cons_conv)
  have tr: "fst (snd (execute_rollback trace_delete ''now'' (log_of iter3_log ''pending'') []))
       = [(''synthesis_results'', ''s3''), (''rules_effectiveness'', ''e1''),
          (''design_iterations'', ''i3''), (''projects'', ''p1'')]"
    by (simp add: execute_rollback_planned log_of_def planned_def iter3_log_def declared_def
        order_rank_values trace_delete_def)
       (simp add: ROLLBACK_ORDER_def)
  show ?thesis by (intro conjI a' b' c' e' tr)
qed

text \<open>
  The claim as stated fails: for FIR128 with iterations 1, 2, 3 the manifest of
  iteration 3 lists the project row and the statistics row, and the rollback plan of
  that manifest ends with the deletion of the project.
\<close>

theorem iteration_scoped_manifest_counterexample:
  "logger_by_project no_logs False [] ''20251012_101500'' ''2025-10-12T10:15:00'' fir_db
       ''FIR128'' (Some 3)
     = Inr (Some (''rollback_FIR128_iter3_20251012_101500.yaml'',
                  \<lparr>m_project = ''FIR128'', m_iteration = Some 3, m_project_type = ''fir'',
                   m_timestamp = ''2025-10-12T10:15:00'',
                   m_notes = ''Auto-generated log for FIR128'',
                   inserted_records = iter3_log, rollback_status = ''pending'',
                   rollback_timestamp = None\<rparr>))
   \<and> map (\<lambda>x. (fst x, m_id (snd x))) (snd (dry_run_rollback iter3_log))
       = [(''synthesis_results'', Some ''s3''), (''rules_effectiveness'', Some ''e1''),
          (''design_iterations'', Some ''i3''), (''projects'', Some ''p1'')]"
proof -
  have "map (\<lambda>x. (fst x, m_id (snd x))) (snd (dry_run_rollback iter3_log))
       = [(''synthesis_results'', Some ''s3''), (''rules_effectiveness'', Some ''e1''),
          (''design_iterations'', Some ''i3''), (''projects'', Some ''p1'')]"
    by (simp add: plan_blocks ROLLBACK_ORDER_def iter3_log_def)
  with fir_iter3_logged show ?thesis by (rule conjI)
qed

end
